theory Spec2Isabelle
  imports Main "HOL-Library.Word"
begin

unbundle bit_operations_syntax

section \<open>Subnet inventory: a shallow embedding of subnet\_inventory.py\<close>

text \<open>
  Python strings are modelled as \<open>string\<close> (lists of 8-bit characters, that is code
  points below 256); Python integers as \<open>int\<close>. Every exception the source can raise
  is a value of \<open>error\<close>, and a function that can raise returns \<open>error + 'a\<close>.

  The inventory file is an optional string: \<open>None\<close> when the file does not exist,
  otherwise its raw content.

  The script parses and compares networks with the standard module \<open>ipaddress\<close>; the
  functions of that module it reaches (\<open>ip_network\<close> with both its IPv4 and its IPv6
  parser, and \<open>overlaps\<close>) are embedded from the module's source.
\<close>

subsection \<open>Characters and the string methods the script uses\<close>

definition LF :: char where "LF = CHR 0x0A"
definition CR :: char where "CR = CHR 0x0D"
definition SP :: char where "SP = CHR 0x20"

text \<open>\<open>'0' <= c <= '9'\<close>: the only decimal digits among the code points below 256.\<close>

definition is_digit :: "char \<Rightarrow> bool" where
  "is_digit c = (48 \<le> (of_char c :: nat) \<and> (of_char c :: nat) \<le> 57)"

text \<open>\<open>str.isspace\<close> on one character, for code points below 256.\<close>

definition is_space :: "char \<Rightarrow> bool" where
  "is_space c = (let n = (of_char c :: nat) in
     (9 \<le> n \<and> n \<le> 13) \<or> (28 \<le> n \<and> n \<le> 32) \<or> n = 133 \<or> n = 160)"

text \<open>\<open>s.strip()\<close>: leading and trailing whitespace removed.\<close>

definition strip :: "string \<Rightarrow> string" where
  "strip s = rev (dropWhile is_space (rev (dropWhile is_space s)))"

text \<open>
  \<open>s.rsplit(' ', 1)\<close>: split once at the last space; a string without a space comes
  back whole, as a list of one element.
\<close>

definition rsplit :: "string \<Rightarrow> string list" where
  "rsplit s =
     (if SP \<in> set s
      then [rev (tl (dropWhile (\<lambda>c. c \<noteq> SP) (rev s))), rev (takeWhile (\<lambda>c. c \<noteq> SP) (rev s))]
      else [s])"

text \<open>\<open>s.split(sep)\<close> for a separator of one character: empty fields are kept.\<close>

fun str_split :: "char \<Rightarrow> string \<Rightarrow> string list" where
  "str_split sep [] = [[]]"
| "str_split sep (c # cs) =
     (if c = sep then [] # str_split sep cs
      else (case str_split sep cs of [] \<Rightarrow> [[c]] | w # ws \<Rightarrow> (c # w) # ws))"

subsection \<open>Errors\<close>

text \<open>The exceptions of the script and of the \<open>ipaddress\<close> module.\<close>

datatype error =
    FileNotFoundError
  | IndexError
  | ValueError
  | AddressValueError
  | NetmaskValueError
  | EOFError

text \<open>\<open>xs[i]\<close> on a Python list, for a non-negative index.\<close>

definition index :: "'a list \<Rightarrow> nat \<Rightarrow> error + 'a" where
  "index xs i = (if i < length xs then Inr (xs ! i) else Inl IndexError)"

subsection \<open>check\_address\_format: the regular expression\<close>

text \<open>
  The pattern \<open>\d{1,3}\.\d{1,3}\.\d{1,3}\.\d{1,3}/\d{1,2}\<close> is a sequence of literal
  characters and bounded runs of digits. \<open>match_here\<close> says whether the pattern matches a
  prefix of the text (for some admissible length of each run, which is what backtracking
  finds); \<open>re_search\<close> tries every start position, as \<open>re.search\<close> does.
\<close>

datatype atom = Digits nat nat | Lit char

fun match_here :: "atom list \<Rightarrow> string \<Rightarrow> bool" where
  "match_here [] s = True"
| "match_here (Lit c # p) s = (case s of [] \<Rightarrow> False | x # xs \<Rightarrow> x = c \<and> match_here p xs)"
| "match_here (Digits lo hi # p) s =
     list_ex (\<lambda>k. k \<le> length s \<and> list_all is_digit (take k s) \<and> match_here p (drop k s))
       [lo..<Suc hi]"

definition re_search :: "atom list \<Rightarrow> string \<Rightarrow> bool" where
  "re_search p s = list_ex (\<lambda>i. match_here p (drop i s)) [0..<Suc (length s)]"

definition cidr_pattern :: "atom list" where
  "cidr_pattern =
     [Digits 1 3, Lit (CHR ''.''), Digits 1 3, Lit (CHR ''.''), Digits 1 3, Lit (CHR ''.''),
      Digits 1 3, Lit (CHR ''/''), Digits 1 2]"

definition check_address_format :: "string \<Rightarrow> bool" where
  "check_address_format cidr_string = (if re_search cidr_pattern cidr_string then True else False)"

text \<open>
  The shape the specification describes, read as a property of the whole string: four
  groups of one to three digits separated by dots, a slash, one or two digits.
\<close>

definition digit_group :: "nat \<Rightarrow> nat \<Rightarrow> string \<Rightarrow> bool" where
  "digit_group lo hi g = (lo \<le> length g \<and> length g \<le> hi \<and> list_all is_digit g)"

definition cidr_shape :: "string \<Rightarrow> bool" where
  "cidr_shape s =
     (case str_split (CHR ''/'') s of
        [a, p] \<Rightarrow>
          (case str_split (CHR ''.'') a of
             [o1, o2, o3, o4] \<Rightarrow>
               digit_group 1 3 o1 \<and> digit_group 1 3 o2 \<and> digit_group 1 3 o3 \<and>
               digit_group 1 3 o4 \<and> digit_group 1 2 p
           | _ \<Rightarrow> False)
      | _ \<Rightarrow> False)"

subsection \<open>The inventory file and the console\<close>

text \<open>
  The file is opened in text mode, so reading translates \<open>\r\n\<close> and a lone \<open>\r\<close>
  to \<open>\n\<close>; \<open>readlines\<close> then cuts the text after every \<open>\n\<close>, keeping it.
\<close>

fun universal_newlines :: "string \<Rightarrow> string" where
  "universal_newlines [] = []"
| "universal_newlines [c] = (if c = CR then [LF] else [c])"
| "universal_newlines (c # d # cs) =
     (if c = CR then
        (if d = LF then LF # universal_newlines cs else LF # universal_newlines (d # cs))
      else c # universal_newlines (d # cs))"

fun keepends :: "string \<Rightarrow> string list" where
  "keepends [] = []"
| "keepends (c # cs) =
     (if c = LF then [LF] # keepends cs
      else (case keepends cs of [] \<Rightarrow> [[c]] | l # ls \<Rightarrow> (c # l) # ls))"

definition readlines :: "string \<Rightarrow> string list" where
  "readlines f = keepends (universal_newlines f)"

text \<open>
  The world a command runs in: the inventory file (\<open>None\<close> when it does not exist), the
  lines still to be typed at the prompts, and what has been shown so far (one entry for
  each \<open>print\<close> call and for each prompt of \<open>input\<close>).
\<close>

record world =
  inventory :: "string option"
  stdin :: "string list"
  stdout :: "string list"

definition print :: "string \<Rightarrow> world \<Rightarrow> world" where
  "print s w = w\<lparr>stdout := stdout w @ [s]\<rparr>"

subsection \<open>The Subnet class\<close>

record subnet =
  name :: string
  cidr_string :: string

subsection \<open>The module \<open>ipaddress\<close>: what both versions share\<close>

text \<open>
  The classes of the module differ by their version (\<open>_version\<close>), their address
  length and their mask of ones; methods of the common base class take the class as
  the parameter \<open>v\<close>.
\<close>

datatype ip_version = V4 | V6

definition IPV4LENGTH :: nat where "IPV4LENGTH = 32"

definition IPV6LENGTH :: nat where "IPV6LENGTH = 128"

definition max_prefixlen :: "ip_version \<Rightarrow> nat" where
  "max_prefixlen v = (case v of V4 \<Rightarrow> IPV4LENGTH | V6 \<Rightarrow> IPV6LENGTH)"

definition ALL_ONES :: "ip_version \<Rightarrow> int" where
  "ALL_ONES v = 2 ^ max_prefixlen v - 1"

text \<open>
  A network object: its version, the integer of its network address, the integer of
  its netmask and its prefix length.
\<close>

record network =
  version :: ip_version
  network_address :: int
  netmask :: int
  prefixlen :: nat

definition isascii :: "string \<Rightarrow> bool" where
  "isascii s = list_all (\<lambda>c. (of_char c :: nat) < 128) s"

text \<open>
  \<open>str.isdigit\<close>: a non-empty string of characters with a digit value; below 256 these
  are \<open>0\<close> to \<open>9\<close> and the superscripts two, three and one.
\<close>

definition isdigit :: "string \<Rightarrow> bool" where
  "isdigit s = (s \<noteq> [] \<and>
     list_all (\<lambda>c. is_digit c \<or> (of_char c :: nat) = 178 \<or> (of_char c :: nat) = 179 \<or>
                   (of_char c :: nat) = 185) s)"

text \<open>\<open>int(s, 10)\<close> on a string of ASCII digits.\<close>

definition digit_val :: "char \<Rightarrow> int" where
  "digit_val c = int (of_char c) - 48"

definition int_of_digits :: "string \<Rightarrow> int" where
  "int_of_digits s = foldl (\<lambda>acc c. 10 * acc + digit_val c) 0 s"

text \<open>Apply a function that can raise to each element in turn; the first error ends it.\<close>

fun traverse :: "('a \<Rightarrow> error + 'b) \<Rightarrow> 'a list \<Rightarrow> error + 'b list" where
  "traverse f [] = Inr []"
| "traverse f (x # xs) =
     (case f x of
        Inl e \<Rightarrow> Inl e
      | Inr y \<Rightarrow> (case traverse f xs of Inl e \<Rightarrow> Inl e | Inr ys \<Rightarrow> Inr (y # ys)))"

definition ip_int_from_prefix :: "ip_version \<Rightarrow> nat \<Rightarrow> int" where
  "ip_int_from_prefix v p = ALL_ONES v XOR (drop_bit p (ALL_ONES v))"

text \<open>\<open>int.bit_length\<close>: the number of binary digits of the absolute value.\<close>

function bit_length :: "int \<Rightarrow> nat" where
  "bit_length x = (if x = 0 then 0 else Suc (bit_length (\<bar>x\<bar> div 2)))"
  by pat_completeness auto
termination
  by (relation "measure (\<lambda>x. nat \<bar>x\<bar>)") auto

definition count_righthand_zero_bits :: "int \<Rightarrow> nat \<Rightarrow> nat" where
  "count_righthand_zero_bits number bits =
     (if number = 0 then bits
      else min bits (bit_length (NOT number AND (number - 1))))"

definition prefix_from_ip_int :: "ip_version \<Rightarrow> int \<Rightarrow> error + nat" where
  "prefix_from_ip_int v ip_int =
     (let trailing_zeroes = count_righthand_zero_bits ip_int (max_prefixlen v);
          p = max_prefixlen v - trailing_zeroes;
          leading_ones = drop_bit trailing_zeroes ip_int;
          all_ones = push_bit p 1 - 1
      in if leading_ones \<noteq> all_ones then Inl ValueError else Inr p)"

text \<open>
  \<open>int(prefixlen_str)\<close> cannot fail on a string of ASCII digits except for its length
  limit, and a number that long is above the maximum, which is reported the same way.
\<close>

definition prefix_from_prefix_string :: "ip_version \<Rightarrow> string \<Rightarrow> error + nat" where
  "prefix_from_prefix_string v prefixlen_str =
     (if \<not> (isascii prefixlen_str \<and> isdigit prefixlen_str) then Inl NetmaskValueError
      else (let p = int_of_digits prefixlen_str in
            if \<not> (0 \<le> p \<and> p \<le> int (max_prefixlen v)) then Inl NetmaskValueError
            else Inr (nat p)))"

text \<open>
  The part after the slash as \<open>_split_addr_prefix\<close> hands it on: the text, or the
  integer \<open>_max_prefixlen\<close> when the address has no slash.
\<close>

datatype mask_arg = MaskInt int | MaskText string

definition split_optional_netmask :: "string \<Rightarrow> error + string list" where
  "split_optional_netmask address =
     (let addr = str_split (CHR ''/'') address in
      if length addr > 2 then Inl AddressValueError else Inr addr)"

definition split_addr_prefix :: "ip_version \<Rightarrow> string \<Rightarrow> error + (string \<times> mask_arg)" where
  "split_addr_prefix v address =
     (case split_optional_netmask address of
        Inl e \<Rightarrow> Inl e
      | Inr parts \<Rightarrow>
          (if length parts > 1 then Inr (parts ! 0, MaskText (parts ! 1))
           else Inr (parts ! 0, MaskInt (int (max_prefixlen v)))))"

subsection \<open>The IPv4 classes\<close>

definition parse_octet :: "string \<Rightarrow> error + int" where
  "parse_octet octet_str =
     (if octet_str = [] then Inl ValueError
      else if \<not> (isascii octet_str \<and> isdigit octet_str) then Inl ValueError
      else if length octet_str > 3 then Inl ValueError
      else if octet_str \<noteq> ''0'' \<and> hd octet_str = CHR ''0'' then Inl ValueError
      else (let octet_int = int_of_digits octet_str in
            if octet_int > 255 then Inl ValueError else Inr octet_int))"

text \<open>\<open>int.from_bytes(bs, 'big')\<close>.\<close>

definition from_bytes_big :: "int list \<Rightarrow> int" where
  "from_bytes_big bs = foldl (\<lambda>acc b. acc * 256 + b) 0 bs"

definition ip_int_from_string :: "string \<Rightarrow> error + int" where
  "ip_int_from_string ip_str =
     (if ip_str = [] then Inl AddressValueError
      else (let octets = str_split (CHR ''.'') ip_str in
            if length octets \<noteq> 4 then Inl AddressValueError
            else (case traverse parse_octet octets of
                    Inl e \<Rightarrow> Inl AddressValueError
                  | Inr bs \<Rightarrow> Inr (from_bytes_big bs))))"

text \<open>\<open>IPv4Address(addr)\<close> for a string.\<close>

definition IPv4Address :: "string \<Rightarrow> error + int" where
  "IPv4Address addr_str =
     (if CHR ''/'' \<in> set addr_str then Inl AddressValueError
      else ip_int_from_string addr_str)"

text \<open>
  \<open>_prefix_from_ip_string\<close>, reached from the IPv4 class only: a mask written as a
  dotted netmask or hostmask.
\<close>

definition prefix_from_ip_string :: "string \<Rightarrow> error + nat" where
  "prefix_from_ip_string ip_str =
     (case ip_int_from_string ip_str of
        Inl e \<Rightarrow> Inl NetmaskValueError
      | Inr ip_int \<Rightarrow>
          (case prefix_from_ip_int V4 ip_int of
             Inr p \<Rightarrow> Inr p
           | Inl e \<Rightarrow>
               (case prefix_from_ip_int V4 (ip_int XOR ALL_ONES V4) of
                  Inr p \<Rightarrow> Inr p
                | Inl e' \<Rightarrow> Inl NetmaskValueError)))"

definition make_netmask :: "mask_arg \<Rightarrow> error + (int \<times> nat)" where
  "make_netmask arg =
     (case (case arg of
              MaskInt p \<Rightarrow>
                (if \<not> (0 \<le> p \<and> p \<le> int (max_prefixlen V4)) then Inl NetmaskValueError
                 else Inr (nat p))
            | MaskText s \<Rightarrow>
                (case prefix_from_prefix_string V4 s of
                   Inr p \<Rightarrow> Inr p
                 | Inl e \<Rightarrow> prefix_from_ip_string s)) of
        Inl e \<Rightarrow> Inl e
      | Inr p \<Rightarrow> Inr (ip_int_from_prefix V4 p, p))"

definition IPv4Network :: "string \<Rightarrow> bool \<Rightarrow> error + network" where
  "IPv4Network address strict =
     (case split_addr_prefix V4 address of
        Inl e \<Rightarrow> Inl e
      | Inr (addr, m) \<Rightarrow>
          (case IPv4Address addr of
             Inl e \<Rightarrow> Inl e
           | Inr packed \<Rightarrow>
               (case make_netmask m of
                  Inl e \<Rightarrow> Inl e
                | Inr (nm, p) \<Rightarrow>
                    (if packed AND nm \<noteq> packed then
                       (if strict then Inl ValueError
                        else Inr \<lparr>version = V4, network_address = packed AND nm, netmask = nm,
                                  prefixlen = p\<rparr>)
                     else Inr \<lparr>version = V4, network_address = packed, netmask = nm,
                               prefixlen = p\<rparr>))))"

subsection \<open>The IPv6 classes\<close>

definition HEXTET_COUNT :: nat where "HEXTET_COUNT = 8"

definition HEX_DIGITS :: "char set" where
  "HEX_DIGITS = set ''0123456789ABCDEFabcdef''"

text \<open>\<open>int(s, 16)\<close> on a string of hexadecimal digits.\<close>

definition hex_val :: "char \<Rightarrow> int" where
  "hex_val c =
     (if is_digit c then int (of_char c) - 48
      else if 97 \<le> (of_char c :: nat) then int (of_char c) - 87
      else int (of_char c) - 55)"

definition int_of_hex :: "string \<Rightarrow> int" where
  "int_of_hex s = foldl (\<lambda>acc c. 16 * acc + hex_val c) 0 s"

text \<open>
  \<open>_parse_hextet\<close>. The empty string passes the two checks and then \<open>int('', 16)\<close>
  raises \<open>ValueError\<close>.
\<close>

definition parse_hextet :: "string \<Rightarrow> error + int" where
  "parse_hextet hextet_str =
     (if \<not> set hextet_str \<subseteq> HEX_DIGITS then Inl ValueError
      else if length hextet_str > 4 then Inl ValueError
      else if hextet_str = [] then Inl ValueError
      else Inr (int_of_hex hextet_str))"

text \<open>\<open>'%x' % n\<close> for a non-negative integer.\<close>

definition hex_digit :: "int \<Rightarrow> char" where
  "hex_digit d = ''0123456789abcdef'' ! nat d"

function hex_string :: "int \<Rightarrow> string" where
  "hex_string n =
     (if n < 16 then [hex_digit n] else hex_string (n div 16) @ [hex_digit (n mod 16)])"
  by pat_completeness auto
termination
  by (relation "measure nat") auto

text \<open>
  An IPv4-style last part is replaced by its two hextets (\<open>parts.pop()\<close> and two
  \<open>parts.append\<close>).
\<close>

definition ipv4_suffix :: "string list \<Rightarrow> error + string list" where
  "ipv4_suffix parts =
     (if CHR ''.'' \<in> set (last parts) then
        (case IPv4Address (last parts) of
           Inl e \<Rightarrow> Inl AddressValueError
         | Inr ipv4_int \<Rightarrow>
             Inr (butlast parts @
                  [hex_string (drop_bit 16 ipv4_int AND 65535), hex_string (ipv4_int AND 65535)]))
      else Inr parts)"

text \<open>
  The search for the one \<open>::\<close>: the loop over \<open>range(1, len(parts) - 1)\<close>, with
  \<open>skip_index\<close> as it stands so far.
\<close>

fun skip_loop :: "string list \<Rightarrow> nat list \<Rightarrow> nat option \<Rightarrow> error + nat option" where
  "skip_loop parts [] skip_index = Inr skip_index"
| "skip_loop parts (i # rest) skip_index =
     (if parts ! i = [] then
        (if skip_index \<noteq> None then Inl AddressValueError
         else skip_loop parts rest (Some i))
      else skip_loop parts rest skip_index)"

text \<open>
  \<open>parts_hi\<close>, \<open>parts_lo\<close> and \<open>parts_skipped\<close>. The list has at least three parts
  here, so its first and last part exist.
\<close>

definition hextet_counts :: "string list \<Rightarrow> nat option \<Rightarrow> error + (int \<times> int \<times> int)" where
  "hextet_counts parts skip_index =
     (case skip_index of
        Some i \<Rightarrow>
          (let hi0 = int i;
               lo0 = int (length parts) - int i - 1;
               parts_hi = (if parts ! 0 = [] then hi0 - 1 else hi0)
           in if parts ! 0 = [] \<and> parts_hi \<noteq> 0 then Inl AddressValueError
              else (let parts_lo = (if last parts = [] then lo0 - 1 else lo0)
                    in if last parts = [] \<and> parts_lo \<noteq> 0 then Inl AddressValueError
                       else (let parts_skipped = int HEXTET_COUNT - (parts_hi + parts_lo)
                             in if parts_skipped < 1 then Inl AddressValueError
                                else Inr (parts_hi, parts_lo, parts_skipped))))
      | None \<Rightarrow>
          (if length parts \<noteq> HEXTET_COUNT then Inl AddressValueError
           else if parts ! 0 = [] then Inl AddressValueError
           else if last parts = [] then Inl AddressValueError
           else Inr (int (length parts), 0, 0)))"

text \<open>One of the two loops that shift the integer by 16 bits and add a hextet.\<close>

fun hextet_loop :: "string list \<Rightarrow> int \<Rightarrow> error + int" where
  "hextet_loop [] ip_int = Inr ip_int"
| "hextet_loop (h # rest) ip_int =
     (case parse_hextet h of
        Inl e \<Rightarrow> Inl e
      | Inr x \<Rightarrow> hextet_loop rest (push_bit 16 ip_int OR x))"

definition ip_int_from_string6 :: "string \<Rightarrow> error + int" where
  "ip_int_from_string6 ip_str =
     (if ip_str = [] then Inl AddressValueError
      else (let parts = str_split (CHR '':'') ip_str in
            if length parts < 3 then Inl AddressValueError
            else (case ipv4_suffix parts of
                    Inl e \<Rightarrow> Inl e
                  | Inr parts \<Rightarrow>
                      (if length parts > HEXTET_COUNT + 1 then Inl AddressValueError
                       else (case skip_loop parts [1..<length parts - 1] None of
                               Inl e \<Rightarrow> Inl e
                             | Inr skip_index \<Rightarrow>
                                 (case hextet_counts parts skip_index of
                                    Inl e \<Rightarrow> Inl e
                                  | Inr (parts_hi, parts_lo, parts_skipped) \<Rightarrow>
                                      (case hextet_loop (take (nat parts_hi) parts) 0 of
                                         Inl e \<Rightarrow> Inl AddressValueError
                                       | Inr hi \<Rightarrow>
                                           (case hextet_loop
                                                   (drop (length parts - nat parts_lo) parts)
                                                   (push_bit (nat (16 * parts_skipped)) hi) of
                                              Inl e \<Rightarrow> Inl AddressValueError
                                            | Inr ip_int \<Rightarrow> Inr ip_int))))))))"

text \<open>
  \<open>_split_scope_id\<close>: \<open>ip_str.partition('%')\<close> cuts at the first percent sign; the
  scope may hold any character but another percent sign.
\<close>

definition split_scope_id :: "string \<Rightarrow> error + (string \<times> string option)" where
  "split_scope_id ip_str =
     (if CHR ''%'' \<notin> set ip_str then Inr (ip_str, None)
      else (let addr = takeWhile (\<lambda>c. c \<noteq> CHR ''%'') ip_str;
                scope_id = tl (dropWhile (\<lambda>c. c \<noteq> CHR ''%'') ip_str)
            in if scope_id = [] \<or> CHR ''%'' \<in> set scope_id then Inl AddressValueError
               else Inr (addr, Some scope_id)))"

text \<open>\<open>IPv6Address(addr)\<close> for a string: the integer of the address.\<close>

definition IPv6Address :: "string \<Rightarrow> error + int" where
  "IPv6Address addr_str =
     (if CHR ''/'' \<in> set addr_str then Inl AddressValueError
      else (case split_scope_id addr_str of
              Inl e \<Rightarrow> Inl e
            | Inr (a, scope_id) \<Rightarrow> ip_int_from_string6 a))"

definition make_netmask6 :: "mask_arg \<Rightarrow> error + (int \<times> nat)" where
  "make_netmask6 arg =
     (case (case arg of
              MaskInt p \<Rightarrow>
                (if \<not> (0 \<le> p \<and> p \<le> int (max_prefixlen V6)) then Inl NetmaskValueError
                 else Inr (nat p))
            | MaskText s \<Rightarrow> prefix_from_prefix_string V6 s) of
        Inl e \<Rightarrow> Inl e
      | Inr p \<Rightarrow> Inr (ip_int_from_prefix V6 p, p))"

definition IPv6Network :: "string \<Rightarrow> bool \<Rightarrow> error + network" where
  "IPv6Network address strict =
     (case split_addr_prefix V6 address of
        Inl e \<Rightarrow> Inl e
      | Inr (addr, m) \<Rightarrow>
          (case IPv6Address addr of
             Inl e \<Rightarrow> Inl e
           | Inr packed \<Rightarrow>
               (case make_netmask6 m of
                  Inl e \<Rightarrow> Inl e
                | Inr (nm, p) \<Rightarrow>
                    (if packed AND nm \<noteq> packed then
                       (if strict then Inl ValueError
                        else Inr \<lparr>version = V6, network_address = packed AND nm, netmask = nm,
                                  prefixlen = p\<rparr>)
                     else Inr \<lparr>version = V6, network_address = packed, netmask = nm,
                               prefixlen = p\<rparr>))))"

subsection \<open>\<open>ip_network\<close> and \<open>overlaps\<close>\<close>

text \<open>
  \<open>ip_network\<close> tries \<open>IPv4Network\<close>, then \<open>IPv6Network\<close>, passing over their
  \<open>AddressValueError\<close> and \<open>NetmaskValueError\<close>, and raises \<open>ValueError\<close> when both
  refuse. The "host bits set" \<open>ValueError\<close> of strict parsing is not caught.
\<close>

definition ip_network :: "string \<Rightarrow> bool \<Rightarrow> error + network" where
  "ip_network address strict =
     (case IPv4Network address strict of
        Inr n \<Rightarrow> Inr n
      | Inl e \<Rightarrow>
          (if e = AddressValueError \<or> e = NetmaskValueError then
             (case IPv6Network address strict of
                Inr n \<Rightarrow> Inr n
              | Inl e' \<Rightarrow>
                  (if e' = AddressValueError \<or> e' = NetmaskValueError then Inl ValueError
                   else Inl e'))
           else Inl e))"

definition hostmask :: "network \<Rightarrow> int" where
  "hostmask n = netmask n XOR ALL_ONES (version n)"

definition broadcast_address :: "network \<Rightarrow> int" where
  "broadcast_address n = network_address n OR hostmask n"

text \<open>
  \<open>other in n\<close> for an address object \<open>other\<close>, given by its version and its integer:
  always false when the versions differ.
\<close>

definition contains :: "network \<Rightarrow> ip_version \<times> int \<Rightarrow> bool" where
  "contains n other =
     (if version n \<noteq> fst other then False
      else (snd other AND netmask n = network_address n))"

definition overlaps :: "network \<Rightarrow> network \<Rightarrow> bool" where
  "overlaps self other =
     (contains other (version self, network_address self) \<or>
      (contains other (version self, broadcast_address self) \<or>
       (contains self (version other, network_address other) \<or>
        contains self (version other, broadcast_address other))))"

subsection \<open>The operations of the script\<close>

definition reserved_subnets :: "string list" where
  "reserved_subnets = [''192.168.14.128/25'']"

definition subnets_conflict :: "network \<Rightarrow> network \<Rightarrow> bool" where
  "subnets_conflict cidr1 cidr2 = overlaps cidr1 cidr2"

fun address_loop :: "string \<Rightarrow> string list \<Rightarrow> error + bool" where
  "address_loop cidr [] = Inr False"
| "address_loop cidr (inventory_address # rest) =
     (case index (rsplit inventory_address) 1 of
        Inl e \<Rightarrow> Inl e
      | Inr a \<Rightarrow> if strip a = cidr then Inr True else address_loop cidr rest)"

definition check_subnet_by_address :: "string \<Rightarrow> string option \<Rightarrow> error + bool" where
  "check_subnet_by_address cidr store =
     (case store of
        None \<Rightarrow> Inr False
      | Some f \<Rightarrow> address_loop cidr (readlines f))"

fun name_loop :: "string \<Rightarrow> string list \<Rightarrow> error + bool" where
  "name_loop name_to_check [] = Inr False"
| "name_loop name_to_check (inventory_address # rest) =
     (case index (rsplit inventory_address) 0 of
        Inl e \<Rightarrow> Inl e
      | Inr n \<Rightarrow> if n = name_to_check then Inr True else name_loop name_to_check rest)"

definition check_subnet_by_name :: "string \<Rightarrow> string option \<Rightarrow> error + bool" where
  "check_subnet_by_name name_to_check store =
     (case store of
        None \<Rightarrow> Inr False
      | Some f \<Rightarrow> name_loop name_to_check (readlines f))"

fun conflict_loop :: "network \<Rightarrow> string list \<Rightarrow> subnet list \<Rightarrow> error + subnet list" where
  "conflict_loop cidr [] conflict_list = Inr conflict_list"
| "conflict_loop cidr (inventory_address # rest) conflict_list =
     (case index (rsplit inventory_address) 1 of
        Inl e \<Rightarrow> Inl e
      | Inr a \<Rightarrow>
          (let cidr_string_to_compare = strip a in
           case ip_network cidr_string_to_compare False of
             Inl e \<Rightarrow> Inl e
           | Inr other \<Rightarrow>
               (if subnets_conflict cidr other then
                  (case index (rsplit inventory_address) 0 of
                     Inl e \<Rightarrow> Inl e
                   | Inr n \<Rightarrow>
                       conflict_loop cidr rest
                         (conflict_list @ [\<lparr>name = n, cidr_string = cidr_string_to_compare\<rparr>]))
                else conflict_loop cidr rest conflict_list)))"

definition check_inventory_for_conflicts :: "network \<Rightarrow> string option \<Rightarrow> error + subnet list" where
  "check_inventory_for_conflicts cidr store =
     (case store of
        None \<Rightarrow> Inl FileNotFoundError
      | Some f \<Rightarrow> conflict_loop cidr (readlines f) [])"

fun chosen_loop :: "string \<Rightarrow> string list \<Rightarrow> error + bool" where
  "chosen_loop chosen_name [] = Inr False"
| "chosen_loop chosen_name (inventory_address # rest) =
     (case index (rsplit inventory_address) 0 of
        Inl e \<Rightarrow> Inl e
      | Inr n \<Rightarrow> if chosen_name = n then Inr True else chosen_loop chosen_name rest)"

definition names_conflict :: "string \<Rightarrow> string option \<Rightarrow> error + bool" where
  "names_conflict chosen_name store =
     (case store of
        None \<Rightarrow> Inl FileNotFoundError
      | Some f \<Rightarrow> chosen_loop chosen_name (readlines f))"

text \<open>The loop of \<open>delete_subnet\<close>: the text written back to the file.\<close>

fun delete_loop :: "string \<Rightarrow> string list \<Rightarrow> error + string" where
  "delete_loop delete_name [] = Inr []"
| "delete_loop delete_name (inventory_address # rest) =
     (case index (rsplit inventory_address) 0 of
        Inl e \<Rightarrow> Inl e
      | Inr inventory_name \<Rightarrow>
          (case delete_loop delete_name rest of
             Inl e \<Rightarrow> Inl e
           | Inr written \<Rightarrow>
               if inventory_name \<noteq> delete_name then Inr (inventory_address @ written)
               else Inr written))"

definition delete_subnet :: "string \<Rightarrow> world \<Rightarrow> (error + unit) \<times> world" where
  "delete_subnet delete_name w =
     (case inventory w of
        None \<Rightarrow> (Inl FileNotFoundError, w)
      | Some f \<Rightarrow>
          (case delete_loop delete_name (readlines f) of
             Inl e \<Rightarrow> (Inl e, w)
           | Inr written \<Rightarrow>
               (Inr (), print (delete_name @ '' subnet removed from inventory'')
                          (w\<lparr>inventory := Some written\<rparr>))))"

fun display_loop :: "string list \<Rightarrow> world \<Rightarrow> (error + unit) \<times> world" where
  "display_loop [] w = (Inr (), w)"
| "display_loop (line # rest) w =
     (let split_line = rsplit line in
      case index split_line 0 of
        Inl e \<Rightarrow> (Inl e, w)
      | Inr n \<Rightarrow>
          (case index split_line 1 of
             Inl e \<Rightarrow> (Inl e, w)
           | Inr a \<Rightarrow> display_loop rest (print (n @ '' - '' @ strip a) w)))"

definition display_inventory :: "world \<Rightarrow> (error + unit) \<times> world" where
  "display_inventory w =
     (case inventory w of
        None \<Rightarrow> (Inl FileNotFoundError, w)
      | Some f \<Rightarrow> display_loop (readlines f) (print ''Subnet Name - Subnet Address'' w))"

text \<open>The loop over \<open>reserved_subnets\<close> at the start of \<open>add_subnet\<close>.\<close>

fun reserved_loop :: "string \<Rightarrow> string list \<Rightarrow> error + bool" where
  "reserved_loop cidr [] = Inr False"
| "reserved_loop cidr (reserved # rest) =
     (case ip_network cidr False of
        Inl e \<Rightarrow> Inl e
      | Inr n \<Rightarrow>
          (case ip_network reserved False of
             Inl e \<Rightarrow> Inl e
           | Inr r \<Rightarrow> if subnets_conflict n r then Inr True else reserved_loop cidr rest))"

definition confirm_prompt :: string where
  "confirm_prompt = ''This subnet conflicts with one or more subnets already in the inventory. Are you sure you wish to add it? (Y/n): ''"

text \<open>
  The confirmation loop: \<open>input\<close> shows the prompt and takes the next typed line, or
  raises \<open>EOFError\<close> when there is none. \<open>Inr True\<close> stands for \<open>break\<close>, \<open>Inr False\<close>
  for the \<open>return\<close> after the answer \<open>n\<close>.
\<close>

fun confirm_loop :: "string list \<Rightarrow> string list \<Rightarrow> (error + bool) \<times> string list \<times> string list" where
  "confirm_loop [] out = (Inl EOFError, [], out @ [confirm_prompt])"
| "confirm_loop (verify # rest) out =
     (if verify = ''Y'' then (Inr True, rest, out @ [confirm_prompt])
      else if verify = ''n'' then
        (Inr False, rest, out @ [confirm_prompt, ''Did not add subnet to inventory''])
      else confirm_loop rest (out @ [confirm_prompt, ''Please select Y or n'']))"

text \<open>The line \<open>"{name} {address}\n"\<close> that \<open>add_subnet\<close> appends.\<close>

definition to_add :: "subnet \<Rightarrow> string" where
  "to_add subnet_object = name subnet_object @ [SP] @ cidr_string subnet_object @ [LF]"

text \<open>Opening with mode \<open>a+\<close> creates the file when it is missing.\<close>

definition append_inventory :: "subnet \<Rightarrow> world \<Rightarrow> (error + unit) \<times> world" where
  "append_inventory subnet_object w =
     (Inr (),
      print (''Subnet added to inventory: '' @ to_add subnet_object)
        (w\<lparr>inventory :=
            Some ((case inventory w of None \<Rightarrow> [] | Some f \<Rightarrow> f) @ to_add subnet_object)\<rparr>))"

definition add_subnet :: "subnet \<Rightarrow> world \<Rightarrow> (error + unit) \<times> world" where
  "add_subnet subnet_object w =
     (case reserved_loop (cidr_string subnet_object) reserved_subnets of
        Inl e \<Rightarrow> (Inl e, w)
      | Inr True \<Rightarrow>
          (Inr (), print ''Subnet is reserved or conflicts with a reserved subnet and cannot be added'' w)
      | Inr False \<Rightarrow>
          (case ip_network (cidr_string subnet_object) False of
             Inl e \<Rightarrow> (Inl e, w)
           | Inr n \<Rightarrow>
               (case check_inventory_for_conflicts n (inventory w) of
                  Inl e \<Rightarrow> (Inl e, w)
                | Inr conflicting_subnets \<Rightarrow>
                    (if conflicting_subnets \<noteq> [] then
                       (case confirm_loop (stdin w) (stdout w) of
                          (Inl e, rest, out) \<Rightarrow> (Inl e, w\<lparr>stdin := rest, stdout := out\<rparr>)
                        | (Inr False, rest, out) \<Rightarrow> (Inr (), w\<lparr>stdin := rest, stdout := out\<rparr>)
                        | (Inr True, rest, out) \<Rightarrow>
                            append_inventory subnet_object (w\<lparr>stdin := rest, stdout := out\<rparr>))
                     else append_inventory subnet_object w))))"

subsection \<open>The store as a sequence of records\<close>

text \<open>
  The file that holds the records \<open>rs\<close>, each written by \<open>add_subnet\<close>, in order.
\<close>

definition encode :: "subnet list \<Rightarrow> string" where
  "encode rs = concat (map to_add rs)"

text \<open>
  A name cannot hold a line break (it is typed at a prompt). An address as stored holds
  no whitespace: every IPv4 text that \<open>ip_network\<close> accepts is such, and so is every
  IPv6 text unless its scope name holds whitespace. A valid address is one that
  \<open>ip_network\<close> accepts and that holds no whitespace.
\<close>

definition clean_name :: "string \<Rightarrow> bool" where
  "clean_name s = (LF \<notin> set s \<and> CR \<notin> set s)"

definition plain_record :: "subnet \<Rightarrow> bool" where
  "plain_record r = (clean_name (name r) \<and> list_all (\<lambda>c. \<not> is_space c) (cidr_string r))"

definition valid_cidr :: "string \<Rightarrow> bool" where
  "valid_cidr s =
     ((case ip_network s False of Inr n \<Rightarrow> True | Inl e \<Rightarrow> False) \<and>
      list_all (\<lambda>c. \<not> is_space c) s)"

definition valid_record :: "subnet \<Rightarrow> bool" where
  "valid_record r = (clean_name (name r) \<and> valid_cidr (cidr_string r))"

subsection \<open>What parsing guarantees\<close>

text \<open>The characters of an IPv4 network in text form.\<close>

definition cidr_char :: "char \<Rightarrow> bool" where
  "cidr_char c = (is_digit c \<or> c = CHR ''.'' \<or> c = CHR ''/'')"

text \<open>
  The invariant of a parsed network: the mask is the one of the prefix length, and the
  network address is a value of the version's length with no bit outside the mask.
\<close>

definition wf_network :: "network \<Rightarrow> bool" where
  "wf_network n =
     (prefixlen n \<le> max_prefixlen (version n) \<and>
      netmask n = ip_int_from_prefix (version n) (prefixlen n) \<and>
      0 \<le> network_address n \<and> network_address n < 2 ^ max_prefixlen (version n) \<and>
      network_address n AND netmask n = network_address n)"

text \<open>Whether a stored record is reported for a candidate network.\<close>

definition conflicts_with :: "network \<Rightarrow> subnet \<Rightarrow> bool" where
  "conflicts_with cidr r =
     (case ip_network (cidr_string r) False of
        Inr other \<Rightarrow> subnets_conflict cidr other
      | Inl e \<Rightarrow> False)"

subsection \<open>Text of the shape the format check looks for\<close>

text \<open>Four groups and a prefix, joined as \<open>o1.o2.o3.o4/p\<close>.\<close>

definition dotted_cidr :: "string \<Rightarrow> string \<Rightarrow> string \<Rightarrow> string \<Rightarrow> string \<Rightarrow> string" where
  "dotted_cidr o1 o2 o3 o4 p = o1 @ ''.'' @ o2 @ ''.'' @ o3 @ ''.'' @ o4 @ ''/'' @ p"

section \<open>Properties\<close>

subsection \<open>Strings and lines\<close>

lemma chars_distinct: "SP \<noteq> LF" "LF \<noteq> SP" "SP \<noteq> CR" "CR \<noteq> LF" "LF \<noteq> CR"
  by (simp_all add: SP_def LF_def CR_def)

lemma is_space_simps: "is_space SP" "is_space LF" "is_space CR"
  by (simp_all add: is_space_def SP_def LF_def CR_def)

lemma index_simps:
  "index (x # xs) 0 = Inr x"
  "index [x] 1 = Inl IndexError"
  "index (x # y # ys) 1 = Inr y"
  by (simp_all add: index_def)

lemma rsplit_cases: "rsplit s = [s] \<or> (\<exists>a b. rsplit s = [a, b])"
  by (simp add: rsplit_def)

lemma index_rsplit_0: "index (rsplit l) 0 = Inr (hd (rsplit l))"
  using rsplit_cases [of l] by (auto simp: index_simps)

lemma rsplit_join: "SP \<notin> set c \<Longrightarrow> rsplit (n @ SP # c) = [n, c]"
proof -
  assume c: "SP \<notin> set c"
  have ne: "\<And>x. x \<in> set (rev c) \<Longrightarrow> x \<noteq> SP" using c by auto
  have r: "rev (n @ SP # c) = rev c @ SP # rev n" by simp
  have t: "takeWhile (\<lambda>x. x \<noteq> SP) (rev c @ SP # rev n) = rev c"
    using takeWhile_append2 [of "rev c" "\<lambda>x. x \<noteq> SP" "SP # rev n"] ne by simp
  have d: "dropWhile (\<lambda>x. x \<noteq> SP) (rev c @ SP # rev n) = SP # rev n"
    using dropWhile_append2 [of "rev c" "\<lambda>x. x \<noteq> SP" "SP # rev n"] ne by simp
  show ?thesis unfolding rsplit_def r t d by simp
qed

lemma index_Suc_0: "index [x] (Suc 0) = Inl IndexError" "index (x # y # ys) (Suc 0) = Inr y"
  by (simp_all add: index_def)

lemma universal_newlines_id: "CR \<notin> set s \<Longrightarrow> universal_newlines s = s"
  by (induction s rule: universal_newlines.induct) auto

lemma keepends_line: "LF \<notin> set l \<Longrightarrow> keepends (l @ LF # rest) = (l @ [LF]) # keepends rest"
  by (induction l) auto

lemma dropWhile_none:
  "list_all (\<lambda>c. \<not> P c) xs \<Longrightarrow> xs \<noteq> [] \<Longrightarrow> dropWhile P (xs @ ys) = xs @ ys"
  by (cases xs) auto

lemma strip_line:
  assumes "list_all (\<lambda>c. \<not> is_space c) c"
  shows "strip (c @ [LF]) = c"
proof (cases "c = []")
  case True
  then show ?thesis by (simp add: strip_def is_space_simps)
next
  case False
  have a: "dropWhile is_space (c @ [LF]) = c @ [LF]"
    using assms False by (rule dropWhile_none)
  have c: "list_all (\<lambda>c. \<not> is_space c) (rev c)" using assms by (simp add: list_all_iff)
  have d: "dropWhile is_space (rev c @ []) = rev c @ []"
    using c False by (intro dropWhile_none) auto
  show ?thesis unfolding strip_def a using d by (simp add: is_space_simps)
qed

subsection \<open>Reading back a file of records\<close>

lemma plain_record_chars:
  assumes "plain_record r"
  shows "LF \<notin> set (name r @ SP # cidr_string r)"
    and "CR \<notin> set (to_add r)"
    and "SP \<notin> set (cidr_string r @ [LF])"
  using assms is_space_simps chars_distinct
  by (auto simp: plain_record_def clean_name_def to_add_def list_all_iff)

lemma rsplit_to_add: "plain_record r \<Longrightarrow> rsplit (to_add r) = [name r, cidr_string r @ [LF]]"
  using rsplit_join [of "cidr_string r @ [LF]" "name r"] plain_record_chars(3) [of r]
  by (simp add: to_add_def)

lemma CR_notin_encode: "list_all plain_record rs \<Longrightarrow> CR \<notin> set (encode rs)"
  using plain_record_chars(2) by (induction rs) (auto simp: encode_def)

lemma keepends_encode: "list_all plain_record rs \<Longrightarrow> keepends (encode rs) = map to_add rs"
proof (induction rs)
  case Nil
  then show ?case by (simp add: encode_def)
next
  case (Cons r rs)
  have "encode (r # rs) = (name r @ SP # cidr_string r) @ LF # encode rs"
    by (simp add: encode_def to_add_def)
  moreover from Cons.prems have "plain_record r" by simp
  then have "LF \<notin> set (name r @ SP # cidr_string r)"
    by (rule plain_record_chars(1))
  ultimately have "keepends (encode (r # rs)) =
      ((name r @ SP # cidr_string r) @ [LF]) # keepends (encode rs)"
    using keepends_line by metis
  then show ?case using Cons by (simp add: to_add_def)
qed

lemma readlines_encode: "list_all plain_record rs \<Longrightarrow> readlines (encode rs) = map to_add rs"
  by (simp add: readlines_def universal_newlines_id CR_notin_encode keepends_encode)

lemma encode_append: "encode (rs @ [r]) = encode rs @ to_add r"
  by (simp add: encode_def)

subsection \<open>The two name lookups\<close>

lemma name_loop_chosen_loop: "name_loop n ls = chosen_loop n ls"
  by (induction ls) (auto split: sum.splits)

lemma chosen_loop_mem: "chosen_loop n ls = Inr (n \<in> set (map (\<lambda>l. hd (rsplit l)) ls))"
proof (induction ls)
  case Nil
  then show ?case by simp
next
  case (Cons l ls)
  show ?case using Cons index_rsplit_0 [of l] by auto
qed

text \<open>
  Claim C10. On an inventory file that exists, \<open>check_subnet_by_name\<close> and
  \<open>names_conflict\<close> return the same boolean for every name: both say whether some line,
  cut at its last space, has the name as its first part. They differ only when the file
  is absent, where the first answers \<open>False\<close> and the second raises
  \<open>FileNotFoundError\<close>.
\<close>

theorem name_lookups_agree:
  "check_subnet_by_name n (Some f) = names_conflict n (Some f) \<and>
   names_conflict n (Some f) = Inr (n \<in> set (map (\<lambda>l. hd (rsplit l)) (readlines f))) \<and>
   check_subnet_by_name n None = Inr False \<and>
   names_conflict n None = Inl FileNotFoundError"
  by (simp add: check_subnet_by_name_def names_conflict_def name_loop_chosen_loop
      chosen_loop_mem)

subsection \<open>An inventory file that does not exist\<close>

text \<open>
  Claim C2. The claim is that no core operation fails when the inventory file is
  absent. The two existence checks do answer \<open>False\<close>, but \<open>names_conflict\<close>,
  \<open>check_inventory_for_conflicts\<close>, \<open>delete_subnet\<close>, \<open>display_inventory\<close> and
  \<open>add_subnet\<close> (for a candidate that is not reserved) raise \<open>FileNotFoundError\<close>.
\<close>

theorem absent_inventory_raises:
  "check_subnet_by_address a None = Inr False \<and>
   check_subnet_by_name n None = Inr False \<and>
   names_conflict n None = Inl FileNotFoundError \<and>
   check_inventory_for_conflicts c None = Inl FileNotFoundError \<and>
   delete_subnet n \<lparr>inventory = None, stdin = [], stdout = []\<rparr>
     = (Inl FileNotFoundError, \<lparr>inventory = None, stdin = [], stdout = []\<rparr>) \<and>
   display_inventory \<lparr>inventory = None, stdin = [], stdout = []\<rparr>
     = (Inl FileNotFoundError, \<lparr>inventory = None, stdin = [], stdout = []\<rparr>) \<and>
   add_subnet \<lparr>name = ''A'', cidr_string = ''10.0.0.0/8''\<rparr>
       \<lparr>inventory = None, stdin = [], stdout = []\<rparr>
     = (Inl FileNotFoundError, \<lparr>inventory = None, stdin = [], stdout = []\<rparr>)"
proof -
  have "add_subnet \<lparr>name = ''A'', cidr_string = ''10.0.0.0/8''\<rparr>
       \<lparr>inventory = None, stdin = [], stdout = []\<rparr>
     = (Inl FileNotFoundError, \<lparr>inventory = None, stdin = [], stdout = []\<rparr>)"
    by code_simp
  then show ?thesis
    by (simp add: check_subnet_by_address_def check_subnet_by_name_def names_conflict_def
        check_inventory_for_conflicts_def delete_subnet_def display_inventory_def)
qed

subsection \<open>The format check\<close>

lemma format_check_of_tests:
  "check_address_format ''10.0.0.0/24'' \<and> \<not> check_address_format ''10.0.0.0''"
  by code_simp

text \<open>
  Claim C7. The claim is that \<open>check_address_format\<close> accepts exactly the strings of
  the shape "four groups of one to three digits, a slash, one or two digits". The
  pattern is searched for, not anchored, so a string that merely contains such a part is
  accepted too: \<open>x10.0.0.0/24\<close>, \<open>1234.0.0.0/24\<close> and \<open>10.0.0.0/245\<close> pass the check
  and do not have the shape.
\<close>

theorem check_address_format_unanchored:
  "check_address_format ''x10.0.0.0/24'' \<and> \<not> cidr_shape ''x10.0.0.0/24'' \<and>
   check_address_format ''1234.0.0.0/24'' \<and> \<not> cidr_shape ''1234.0.0.0/24'' \<and>
   check_address_format ''10.0.0.0/245'' \<and> \<not> cidr_shape ''10.0.0.0/245''"
  by code_simp

subsection \<open>Deleting by name\<close>

lemma delete_loop_encode:
  "list_all plain_record rs \<Longrightarrow>
   delete_loop n (map to_add rs) = Inr (encode (filter (\<lambda>r. name r \<noteq> n) rs))"
  by (induction rs) (auto simp: rsplit_to_add index_simps encode_def)

lemma delete_loop_lines:
  "delete_loop n ls = Inr (concat (filter (\<lambda>l. hd (rsplit l) \<noteq> n) ls))"
  by (induction ls) (simp_all add: index_rsplit_0)

lemma filter_absent_name: "n \<notin> set (map name rs) \<Longrightarrow> filter (\<lambda>r. name r \<noteq> n) rs = rs"
  by (induction rs) auto

text \<open>
  Claim C5. On a store holding the records \<open>rs\<close>, \<open>delete_subnet n\<close> rewrites the file
  to the records whose name differs from \<open>n\<close>, in their original order; when no record
  is named \<open>n\<close> nothing is removed and the file is as before.
\<close>

theorem delete_subnet_filters:
  assumes "inventory w = Some (encode rs)" and "list_all plain_record rs"
  shows "delete_subnet n w =
           (Inr (), print (n @ '' subnet removed from inventory'')
                      (w\<lparr>inventory := Some (encode (filter (\<lambda>r. name r \<noteq> n) rs))\<rparr>)) \<and>
         (n \<notin> set (map name rs) \<longrightarrow>
            filter (\<lambda>r. name r \<noteq> n) rs = rs \<and>
            inventory (snd (delete_subnet n w)) = Some (encode rs))"
proof -
  have d: "delete_subnet n w =
           (Inr (), print (n @ '' subnet removed from inventory'')
                      (w\<lparr>inventory := Some (encode (filter (\<lambda>r. name r \<noteq> n) rs))\<rparr>))"
    using assms by (simp add: delete_subnet_def readlines_encode delete_loop_encode)
  show ?thesis using d filter_absent_name [of n rs] by (auto simp: print_def)
qed

theorem delete_subnet_filters_witness:
  "delete_subnet ''A''
     \<lparr>inventory = Some ''A 10.0.0.0/24\<newline>B 10.0.0.128/25\<newline>A2 10.1.0.0/16\<newline>'',
      stdin = [], stdout = []\<rparr>
   = (Inr (),
      \<lparr>inventory = Some ''B 10.0.0.128/25\<newline>A2 10.1.0.0/16\<newline>'', stdin = [],
       stdout = [''A subnet removed from inventory'']\<rparr>) \<and>
   inventory (snd (delete_subnet ''C''
     \<lparr>inventory = Some ''A 10.0.0.0/24\<newline>B 10.0.0.128/25\<newline>A2 10.1.0.0/16\<newline>'',
      stdin = [], stdout = []\<rparr>))
   = Some ''A 10.0.0.0/24\<newline>B 10.0.0.128/25\<newline>A2 10.1.0.0/16\<newline>''"
proof -
  let ?rs = "[\<lparr>name = ''A'', cidr_string = ''10.0.0.0/24''\<rparr>,
              \<lparr>name = ''B'', cidr_string = ''10.0.0.128/25''\<rparr>,
              \<lparr>name = ''A2'', cidr_string = ''10.1.0.0/16''\<rparr>]"
  let ?f = "''A 10.0.0.0/24\<newline>B 10.0.0.128/25\<newline>A2 10.1.0.0/16\<newline>''"
  let ?w = "\<lparr>inventory = Some ?f, stdin = [], stdout = []\<rparr>"
  have e: "inventory ?w = Some (encode ?rs)"
    by (simp add: encode_def to_add_def SP_def LF_def)
  have p: "list_all plain_record ?rs"
    by (simp add: plain_record_def clean_name_def is_space_def LF_def CR_def)
  show ?thesis
    using delete_subnet_filters [OF e p, of "''A''"] delete_subnet_filters [OF e p, of "''C''"]
    by (simp add: encode_def to_add_def SP_def LF_def print_def)
qed

subsection \<open>Looking an address up\<close>

lemma address_loop_encode:
  "list_all plain_record rs \<Longrightarrow>
   address_loop t (map to_add rs) = Inr (t \<in> set (map cidr_string rs))"
  by (induction rs) (auto simp: rsplit_to_add index_Suc_0 strip_line plain_record_def)

text \<open>
  Claim C6. On a store holding the records \<open>rs\<close>, \<open>check_subnet_by_address t\<close> is true
  exactly when \<open>t\<close> is the address text of some record, as that text was given when the
  record was added; on an absent file it is false. The comparison is on text: a
  different spelling of a stored range is not found.
\<close>

theorem check_subnet_by_address_textual:
  assumes "list_all plain_record rs"
  shows "check_subnet_by_address t (Some (encode rs)) = Inr (t \<in> set (map cidr_string rs)) \<and>
         check_subnet_by_address t None = Inr False"
  using assms by (simp add: check_subnet_by_address_def readlines_encode address_loop_encode)

theorem check_subnet_by_address_textual_witness:
  "check_subnet_by_address ''10.0.0.0/24'' (Some ''A 10.0.0.0/24\<newline>B 10.0.0.128/25\<newline>'')
     = Inr True \<and>
   check_subnet_by_address ''10.0.0.1/24'' (Some ''A 10.0.0.0/24\<newline>B 10.0.0.128/25\<newline>'')
     = Inr False \<and>
   ip_network ''10.0.0.1/24'' False = ip_network ''10.0.0.0/24'' False"
proof -
  let ?rs = "[\<lparr>name = ''A'', cidr_string = ''10.0.0.0/24''\<rparr>,
              \<lparr>name = ''B'', cidr_string = ''10.0.0.128/25''\<rparr>]"
  have e: "''A 10.0.0.0/24\<newline>B 10.0.0.128/25\<newline>'' = encode ?rs"
    by (simp add: encode_def to_add_def SP_def LF_def)
  have p: "list_all plain_record ?rs"
    by (simp add: plain_record_def clean_name_def is_space_def LF_def CR_def)
  have n: "ip_network ''10.0.0.1/24'' False = ip_network ''10.0.0.0/24'' False"
    by code_simp
  show ?thesis
    unfolding e
    using check_subnet_by_address_textual [OF p, of "''10.0.0.0/24''"]
      check_subnet_by_address_textual [OF p, of "''10.0.0.1/24''"] n
    by simp
qed

subsection \<open>The parser\<close>

lemma cidr_char_not_space: "cidr_char c \<Longrightarrow> \<not> is_space c"
  by (auto simp: cidr_char_def is_digit_def is_space_def)

lemma str_split_nonempty: "str_split sep s \<noteq> []"
  by (induction s) (auto split: list.splits)

lemma str_split_chars: "c \<in> set s \<Longrightarrow> c = sep \<or> (\<exists>w \<in> set (str_split sep s). c \<in> set w)"
  by (induction s) (auto split: list.splits)

lemma traverse_Inr: "traverse f xs = Inr ys \<Longrightarrow> x \<in> set xs \<Longrightarrow> \<exists>y. f x = Inr y"
  by (induction xs arbitrary: ys) (auto split: sum.splits)

lemma ascii_digits:
  assumes "isascii s" and "isdigit s"
  shows "list_all is_digit s"
proof -
  have "is_digit c" if "c \<in> set s" for c
  proof -
    have "(of_char c :: nat) < 128" using assms(1) that by (simp add: isascii_def list_all_iff)
    moreover have "is_digit c \<or> (of_char c :: nat) = 178 \<or> (of_char c :: nat) = 179 \<or>
        (of_char c :: nat) = 185"
      using assms(2) that by (simp add: isdigit_def list_all_iff)
    ultimately show ?thesis by auto
  qed
  then show ?thesis by (simp add: list_all_iff)
qed

lemma parse_octet_digits: "parse_octet s = Inr v \<Longrightarrow> list_all is_digit s"
  by (auto simp: parse_octet_def ascii_digits Let_def split: if_splits)

lemma ip_int_from_string_chars:
  assumes "ip_int_from_string s = Inr v" and "c \<in> set s"
  shows "is_digit c \<or> c = CHR ''.''"
proof -
  obtain bs where t: "traverse parse_octet (str_split (CHR ''.'') s) = Inr bs"
    using assms(1) by (auto simp: ip_int_from_string_def Let_def split: if_splits sum.splits)
  show ?thesis
  proof (cases "c = CHR ''.''")
    case False
    then obtain w where w: "w \<in> set (str_split (CHR ''.'') s)" "c \<in> set w"
      using str_split_chars [OF assms(2), of "CHR ''.''"] by auto
    then obtain y where "parse_octet w = Inr y" using traverse_Inr [OF t] by blast
    then show ?thesis using parse_octet_digits w(2) by (auto simp: list_all_iff)
  qed simp
qed

lemma prefix_string_chars:
  "prefix_from_prefix_string v s = Inr p \<Longrightarrow> list_all is_digit s \<and> p \<le> max_prefixlen v"
  by (auto simp: prefix_from_prefix_string_def ascii_digits Let_def split: if_splits)

lemma prefix_from_ip_int_le: "prefix_from_ip_int v i = Inr p \<Longrightarrow> p \<le> max_prefixlen v"
  by (auto simp: prefix_from_ip_int_def Let_def split: if_splits)

lemma prefix_ip_string_chars:
  assumes "prefix_from_ip_string s = Inr p"
  shows "p \<le> max_prefixlen V4" and "c \<in> set s \<Longrightarrow> is_digit c \<or> c = CHR ''.''"
proof -
  obtain v where v: "ip_int_from_string s = Inr v"
    using assms by (auto simp: prefix_from_ip_string_def split: sum.splits)
  show "p \<le> max_prefixlen V4" using assms prefix_from_ip_int_le
    by (auto simp: prefix_from_ip_string_def split: sum.splits)
  show "c \<in> set s \<Longrightarrow> is_digit c \<or> c = CHR ''.''"
    using ip_int_from_string_chars [OF v] by simp
qed

lemma make_netmask_text:
  assumes "make_netmask (MaskText s) = Inr (nm, p)"
  shows "p \<le> max_prefixlen V4" and "nm = ip_int_from_prefix V4 p"
    and "c \<in> set s \<Longrightarrow> is_digit c \<or> c = CHR ''.''"
proof -
  have d: "prefix_from_prefix_string V4 s = Inr p \<or> prefix_from_ip_string s = Inr p"
    using assms by (auto simp: make_netmask_def split: sum.splits)
  then show "p \<le> max_prefixlen V4"
    using prefix_string_chars prefix_ip_string_chars(1) by blast
  show "is_digit c \<or> c = CHR ''.''" if "c \<in> set s"
  proof (cases "prefix_from_prefix_string V4 s = Inr p")
    case True
    then show ?thesis using prefix_string_chars [OF True] that by (simp add: list_all_iff)
  next
    case False
    then have "prefix_from_ip_string s = Inr p" using d by simp
    then show ?thesis using prefix_ip_string_chars(2) that by blast
  qed
  show "nm = ip_int_from_prefix V4 p"
    using assms by (auto simp: make_netmask_def split: sum.splits)
qed

lemma make_netmask_ok:
  assumes "make_netmask m = Inr (nm, p)"
  shows "p \<le> max_prefixlen V4 \<and> nm = ip_int_from_prefix V4 p"
proof (cases m)
  case (MaskInt q)
  then show ?thesis using assms by (auto simp: make_netmask_def split: if_splits)
next
  case (MaskText s)
  then show ?thesis using assms make_netmask_text(1,2) by blast
qed

lemma make_netmask6_ok:
  assumes "make_netmask6 m = Inr (nm, p)"
  shows "p \<le> max_prefixlen V6 \<and> nm = ip_int_from_prefix V6 p"
proof (cases m)
  case (MaskInt q)
  then show ?thesis using assms by (auto simp: make_netmask6_def split: if_splits)
next
  case (MaskText s)
  then show ?thesis using assms prefix_string_chars [of V6 s]
    by (auto simp: make_netmask6_def split: sum.splits)
qed

lemma IPv4Address_chars:
  "IPv4Address s = Inr v \<Longrightarrow> c \<in> set s \<Longrightarrow> is_digit c \<or> c = CHR ''.''"
  using ip_int_from_string_chars by (auto simp: IPv4Address_def split: if_splits)

subsection \<open>Masks and address ranges\<close>

lemma ALL_ONES_mask: "ALL_ONES v = mask (max_prefixlen v)"
  by (simp add: ALL_ONES_def mask_eq_exp_minus_1)

lemma nm_bits:
  "p \<le> max_prefixlen v \<Longrightarrow>
   bit (ip_int_from_prefix v p) i \<longleftrightarrow> max_prefixlen v - p \<le> i \<and> i < max_prefixlen v"
  unfolding ip_int_from_prefix_def ALL_ONES_mask by (auto simp: bit_simps)

lemma bit_below:
  assumes "0 \<le> (x::int)" "x < 2 ^ n" "bit x i" shows "i < n"
proof -
  have "take_bit n x = x" using assms by (simp add: take_bit_int_eq_self)
  then have "bit x i \<longleftrightarrow> i < n \<and> bit x i" by (metis bit_take_bit_iff)
  then show ?thesis using assms by simp
qed

lemma and_netmask:
  assumes "p \<le> max_prefixlen v" "0 \<le> x" "x < 2 ^ max_prefixlen v"
  shows "x AND ip_int_from_prefix v p =
           (x div 2 ^ (max_prefixlen v - p)) * 2 ^ (max_prefixlen v - p)"
proof -
  have bx: "\<And>i. bit x i \<Longrightarrow> i < max_prefixlen v"
    using assms bit_below by blast
  have "x AND ip_int_from_prefix v p =
      push_bit (max_prefixlen v - p) (drop_bit (max_prefixlen v - p) x)"
    using assms(1) bx by (auto simp: bit_eq_iff bit_simps nm_bits)
  then show ?thesis by (simp add: push_bit_eq_mult drop_bit_eq_div)
qed

lemma hostmask_eq:
  "p \<le> max_prefixlen v \<Longrightarrow> ip_int_from_prefix v p XOR ALL_ONES v = mask (max_prefixlen v - p)"
  by (rule bit_eqI) (auto simp: bit_simps nm_bits ALL_ONES_mask)

lemma or_mask_aligned: "(k * 2 ^ h) OR mask h = k * 2 ^ h + 2 ^ h - (1::int)"
proof -
  have "k * 2 ^ h + mask h = (k * 2 ^ h) OR mask h"
    by (rule disjunctive_add_eq_or) (auto simp: bit_eq_iff bit_simps simp flip: push_bit_eq_mult)
  then show ?thesis by (simp add: mask_eq_exp_minus_1)
qed

lemma div_eq_iff_range:
  assumes "(0::int) < d"
  shows "(x div d) * d = k * d \<longleftrightarrow> k * d \<le> x \<and> x \<le> k * d + d - 1"
proof
  assume "(x div d) * d = k * d"
  then have k: "x div d = k" using assms by simp
  have "x = d * (x div d) + x mod d" by simp
  moreover have "0 \<le> x mod d" "x mod d < d" using assms by simp_all
  ultimately show "k * d \<le> x \<and> x \<le> k * d + d - 1"
    unfolding k by (simp add: mult.commute)
next
  assume r: "k * d \<le> x \<and> x \<le> k * d + d - 1"
  have "x div d = k"
  proof (rule int_div_pos_eq)
    show "x = d * k + (x - k * d)" by (simp add: mult.commute)
    show "0 \<le> x - k * d" using r by simp
    show "x - k * d < d" using r by simp
  qed
  then show "(x div d) * d = k * d" by simp
qed

lemma netmask_range:
  "p \<le> max_prefixlen v \<Longrightarrow>
   0 \<le> ip_int_from_prefix v p \<and> ip_int_from_prefix v p < 2 ^ max_prefixlen v"
proof -
  assume p: "p \<le> max_prefixlen v"
  have "take_bit (max_prefixlen v) (ip_int_from_prefix v p) = ip_int_from_prefix v p"
    using p by (auto simp: bit_eq_iff bit_simps nm_bits)
  then show ?thesis by (simp add: take_bit_int_eq_self_iff)
qed

subsection \<open>What the two parsers return\<close>

lemma split_addr_prefix_cases:
  assumes "split_addr_prefix v s = Inr (a, m)"
  shows "(str_split (CHR ''/'') s = [a] \<and> m = MaskInt (int (max_prefixlen v))) \<or>
         (\<exists>t. str_split (CHR ''/'') s = [a, t] \<and> m = MaskText t)"
proof (cases "str_split (CHR ''/'') s")
  case Nil
  then show ?thesis using str_split_nonempty by blast
next
  case (Cons x xs)
  show ?thesis
  proof (cases xs)
    case Nil
    then show ?thesis using assms Cons
      by (simp add: split_addr_prefix_def split_optional_netmask_def)
  next
    case (Cons y ys)
    then show ?thesis using assms \<open>str_split (CHR ''/'') s = x # xs\<close>
      by (cases ys) (simp_all add: split_addr_prefix_def split_optional_netmask_def)
  qed
qed

lemma IPv4Network_parts:
  assumes "IPv4Network s strict = Inr n"
  obtains a m packed where "split_addr_prefix V4 s = Inr (a, m)" "IPv4Address a = Inr packed"
    "make_netmask m = Inr (netmask n, prefixlen n)" "network_address n = packed AND netmask n"
    "version n = V4"
  using assms
  by (auto simp: IPv4Network_def split: sum.splits prod.splits if_splits)

lemma IPv6Network_parts:
  assumes "IPv6Network s strict = Inr n"
  obtains a m packed where "split_addr_prefix V6 s = Inr (a, m)" "IPv6Address a = Inr packed"
    "make_netmask6 m = Inr (netmask n, prefixlen n)" "network_address n = packed AND netmask n"
    "version n = V6"
  using assms
  by (auto simp: IPv6Network_def split: sum.splits prod.splits if_splits)

lemma masked_wf:
  assumes p: "prefixlen n \<le> max_prefixlen (version n)"
    and nm: "netmask n = ip_int_from_prefix (version n) (prefixlen n)"
    and na: "network_address n = packed AND netmask n"
  shows "wf_network n"
proof -
  have r: "0 \<le> netmask n" "netmask n < 2 ^ max_prefixlen (version n)"
    using netmask_range [OF p] nm by simp_all
  have "packed AND netmask n \<le> netmask n" using r(1) by (rule AND_upper2)
  then have "network_address n < 2 ^ max_prefixlen (version n)" using r(2) na by simp
  moreover have "0 \<le> network_address n" using r(1) na by simp
  moreover have "network_address n AND netmask n = network_address n"
    unfolding na by (simp add: and.assoc)
  ultimately show ?thesis using p nm by (simp add: wf_network_def)
qed

lemma IPv4Network_wf:
  assumes "IPv4Network s strict = Inr n"
  shows "wf_network n"
proof -
  obtain a m packed where m: "make_netmask m = Inr (netmask n, prefixlen n)"
    and na: "network_address n = packed AND netmask n" and v: "version n = V4"
    using IPv4Network_parts [OF assms] by blast
  show ?thesis using make_netmask_ok [OF m] na v by (intro masked_wf [of n packed]) simp_all
qed

lemma IPv6Network_wf:
  assumes "IPv6Network s strict = Inr n"
  shows "wf_network n"
proof -
  obtain a m packed where m: "make_netmask6 m = Inr (netmask n, prefixlen n)"
    and na: "network_address n = packed AND netmask n" and v: "version n = V6"
    using IPv6Network_parts [OF assms] by blast
  show ?thesis using make_netmask6_ok [OF m] na v by (intro masked_wf [of n packed]) simp_all
qed

lemma IPv4Network_chars:
  assumes "IPv4Network s strict = Inr n" and "c \<in> set s"
  shows "cidr_char c"
proof -
  obtain a m packed where s: "split_addr_prefix V4 s = Inr (a, m)"
    and a: "IPv4Address a = Inr packed"
    and m: "make_netmask m = Inr (netmask n, prefixlen n)"
    using IPv4Network_parts [OF assms(1)] by blast
  consider (slash) "c = CHR ''/''" | (part) w where "w \<in> set (str_split (CHR ''/'') s)" "c \<in> set w"
    using str_split_chars [OF assms(2), of "CHR ''/''"] by blast
  then show ?thesis
  proof cases
    case slash
    then show ?thesis by (simp add: cidr_char_def)
  next
    case part
    from split_addr_prefix_cases [OF s] have "w = a \<or> m = MaskText w"
      using part(1) by auto
    then show ?thesis
    proof
      assume "w = a"
      then show ?thesis using IPv4Address_chars [OF a] part(2) by (auto simp: cidr_char_def)
    next
      assume "m = MaskText w"
      then show ?thesis using make_netmask_text(3) m part(2) by (auto simp: cidr_char_def)
    qed
  qed
qed

lemma ip_network_cases:
  "ip_network s strict = Inr n \<Longrightarrow>
   IPv4Network s strict = Inr n \<or> IPv6Network s strict = Inr n"
  by (auto simp: ip_network_def split: sum.splits if_splits)

lemma ip_network_IPv4: "IPv4Network s strict = Inr n \<Longrightarrow> ip_network s strict = Inr n"
  by (simp add: ip_network_def)

lemma ip_network_wf: "ip_network s strict = Inr n \<Longrightarrow> wf_network n"
  using ip_network_cases IPv4Network_wf IPv6Network_wf by blast

lemma IPv4Network_valid: "IPv4Network s False = Inr n \<Longrightarrow> valid_cidr s"
  using IPv4Network_chars cidr_char_not_space
  by (fastforce simp: valid_cidr_def ip_network_IPv4 list_all_iff)

lemma valid_record_plain: "valid_record r \<Longrightarrow> plain_record r"
  by (simp add: valid_record_def plain_record_def valid_cidr_def)

lemma broadcast_eq:
  assumes "wf_network n"
  shows "broadcast_address n =
           network_address n + 2 ^ (max_prefixlen (version n) - prefixlen n) - 1"
proof -
  let ?h = "max_prefixlen (version n) - prefixlen n"
  have p: "prefixlen n \<le> max_prefixlen (version n)"
    and nm: "netmask n = ip_int_from_prefix (version n) (prefixlen n)"
    and r: "0 \<le> network_address n" "network_address n < 2 ^ max_prefixlen (version n)"
    and al: "network_address n AND netmask n = network_address n"
    using assms unfolding wf_network_def by blast+
  have "network_address n AND netmask n = (network_address n div 2 ^ ?h) * 2 ^ ?h"
    using and_netmask [OF p r] by (simp only: nm)
  then have k: "network_address n = (network_address n div 2 ^ ?h) * 2 ^ ?h"
    by (simp only: al)
  have "broadcast_address n = network_address n OR mask ?h"
    by (simp add: broadcast_address_def hostmask_def nm hostmask_eq [OF p])
  also have "\<dots> = (network_address n div 2 ^ ?h) * 2 ^ ?h OR mask ?h" using k by simp
  also have "\<dots> = (network_address n div 2 ^ ?h) * 2 ^ ?h + 2 ^ ?h - 1" by (rule or_mask_aligned)
  finally show ?thesis using k by simp
qed

lemma contains_range:
  assumes "wf_network n" "0 \<le> x" "x < 2 ^ max_prefixlen (version n)"
  shows "contains n (version n, x) \<longleftrightarrow> network_address n \<le> x \<and> x \<le> broadcast_address n"
proof -
  let ?h = "max_prefixlen (version n) - prefixlen n"
  have p: "prefixlen n \<le> max_prefixlen (version n)"
    and nm: "netmask n = ip_int_from_prefix (version n) (prefixlen n)"
    and r: "0 \<le> network_address n" "network_address n < 2 ^ max_prefixlen (version n)"
    and al: "network_address n AND netmask n = network_address n"
    using assms unfolding wf_network_def by blast+
  have "network_address n AND netmask n = (network_address n div 2 ^ ?h) * 2 ^ ?h"
    using and_netmask [OF p r] by (simp only: nm)
  then have k: "network_address n = (network_address n div 2 ^ ?h) * 2 ^ ?h"
    by (simp only: al)
  have "contains n (version n, x) \<longleftrightarrow> (x div 2 ^ ?h) * 2 ^ ?h = network_address n"
    by (simp add: contains_def nm and_netmask [OF p assms(2,3)])
  also have "\<dots> \<longleftrightarrow> (x div 2 ^ ?h) * 2 ^ ?h = (network_address n div 2 ^ ?h) * 2 ^ ?h"
    using k by simp
  also have "\<dots> \<longleftrightarrow> (network_address n div 2 ^ ?h) * 2 ^ ?h \<le> x \<and>
       x \<le> (network_address n div 2 ^ ?h) * 2 ^ ?h + 2 ^ ?h - 1"
    by (rule div_eq_iff_range) simp
  finally show ?thesis using k broadcast_eq [OF assms(1)] by simp
qed

lemma contains_other_version: "version n \<noteq> v \<Longrightarrow> \<not> contains n (v, x)"
  by (simp add: contains_def)

lemma broadcast_range:
  assumes "wf_network n"
  shows "network_address n \<le> broadcast_address n"
    and "broadcast_address n < 2 ^ max_prefixlen (version n)"
proof -
  have r: "0 \<le> network_address n" "network_address n < 2 ^ max_prefixlen (version n)"
    "prefixlen n \<le> max_prefixlen (version n)"
    "netmask n = ip_int_from_prefix (version n) (prefixlen n)"
    using assms unfolding wf_network_def by blast+
  show "network_address n \<le> broadcast_address n"
    using broadcast_eq [OF assms] by simp
  have h: "hostmask n = mask (max_prefixlen (version n) - prefixlen n)"
    by (simp add: hostmask_def r(4) hostmask_eq [OF r(3)])
  have "(2::int) ^ (max_prefixlen (version n) - prefixlen n) \<le> 2 ^ max_prefixlen (version n)"
    by (rule power_increasing) simp_all
  then have "(mask (max_prefixlen (version n) - prefixlen n) :: int) < 2 ^ max_prefixlen (version n)"
    unfolding mask_eq_exp_minus_1 by linarith
  then show "broadcast_address n < 2 ^ max_prefixlen (version n)"
    unfolding broadcast_address_def h using r(1,2) by (intro OR_upper) simp_all
qed

lemma overlaps_iff:
  assumes "wf_network a" "wf_network b"
  shows "overlaps a b \<longleftrightarrow>
     version a = version b \<and>
     network_address a \<le> broadcast_address b \<and> network_address b \<le> broadcast_address a"
proof (cases "version a = version b")
  case False
  then show ?thesis by (simp add: overlaps_def contains_def)
next
  case True
  have ra: "0 \<le> network_address a" "network_address a < 2 ^ max_prefixlen (version a)"
    and rb: "0 \<le> network_address b" "network_address b < 2 ^ max_prefixlen (version b)"
    using assms unfolding wf_network_def by blast+
  note ba = broadcast_range [OF assms(1)] and bb = broadcast_range [OF assms(2)]
  have 1: "contains b (version b, network_address a) \<longleftrightarrow>
      network_address b \<le> network_address a \<and> network_address a \<le> broadcast_address b"
    using ra True by (intro contains_range [OF assms(2)]) simp_all
  have 2: "contains b (version b, broadcast_address a) \<longleftrightarrow>
      network_address b \<le> broadcast_address a \<and> broadcast_address a \<le> broadcast_address b"
    using ba ra True by (intro contains_range [OF assms(2)]) simp_all
  have 3: "contains a (version a, network_address b) \<longleftrightarrow>
      network_address a \<le> network_address b \<and> network_address b \<le> broadcast_address a"
    using rb True by (intro contains_range [OF assms(1)]) simp_all
  have 4: "contains a (version a, broadcast_address b) \<longleftrightarrow>
      network_address a \<le> broadcast_address b \<and> broadcast_address b \<le> broadcast_address a"
    using bb rb True by (intro contains_range [OF assms(1)]) simp_all
  have "overlaps a b \<longleftrightarrow>
      network_address a \<le> broadcast_address b \<and> network_address b \<le> broadcast_address a"
    unfolding overlaps_def True [symmetric] unfolding True 1 2
    unfolding True [symmetric] 3 4 using ba(1) bb(1) by linarith
  then show ?thesis using True by simp
qed

subsection \<open>The overlap test\<close>

text \<open>
  Claim C1. For two parsed networks, \<open>subnets_conflict\<close> is true exactly when the
  inclusive ranges from network address to broadcast address intersect, that is when
  each range starts no later than the other ends; it is symmetric. Ranges are ranges of
  addresses of one version: an IPv4 and an IPv6 network never conflict.
\<close>

theorem subnets_conflict_iff_ranges_intersect:
  assumes "ip_network s strict = Inr a" and "ip_network t strict' = Inr b"
  shows "(subnets_conflict a b \<longleftrightarrow>
            version a = version b \<and>
            network_address a \<le> broadcast_address b \<and> network_address b \<le> broadcast_address a) \<and>
         (subnets_conflict a b \<longleftrightarrow>
            version a = version b \<and>
            {network_address a .. broadcast_address a} \<inter>
            {network_address b .. broadcast_address b} \<noteq> {}) \<and>
         subnets_conflict a b = subnets_conflict b a"
proof -
  have wa: "wf_network a" and wb: "wf_network b"
    using assms ip_network_wf by blast+
  have i: "subnets_conflict a b \<longleftrightarrow>
      version a = version b \<and>
      network_address a \<le> broadcast_address b \<and> network_address b \<le> broadcast_address a"
    by (simp add: subnets_conflict_def overlaps_iff [OF wa wb])
  have j: "subnets_conflict b a \<longleftrightarrow>
      version b = version a \<and>
      network_address b \<le> broadcast_address a \<and> network_address a \<le> broadcast_address b"
    by (simp add: subnets_conflict_def overlaps_iff [OF wb wa])
  have ne: "network_address a \<le> broadcast_address a" "network_address b \<le> broadcast_address b"
    using broadcast_range(1) wa wb by simp_all
  have s: "{network_address a .. broadcast_address a} \<inter>
            {network_address b .. broadcast_address b} \<noteq> {} \<longleftrightarrow>
      network_address a \<le> broadcast_address b \<and> network_address b \<le> broadcast_address a"
    using ne by (auto simp: Int_atLeastAtMost)
  show ?thesis unfolding i j s by auto
qed

theorem subnets_conflict_iff_ranges_intersect_witness:
  "ip_network ''10.0.0.0/24'' False
     = Inr \<lparr>version = V4, network_address = 167772160, netmask = 4294967040, prefixlen = 24\<rparr> \<and>
   ip_network ''10.0.0.128/25'' False
     = Inr \<lparr>version = V4, network_address = 167772288, netmask = 4294967168, prefixlen = 25\<rparr> \<and>
   ip_network ''10.0.0.0/25'' False
     = Inr \<lparr>version = V4, network_address = 167772160, netmask = 4294967168, prefixlen = 25\<rparr> \<and>
   ip_network ''::/0'' False
     = Inr \<lparr>version = V6, network_address = 0, netmask = 0, prefixlen = 0\<rparr> \<and>
   subnets_conflict
     \<lparr>version = V4, network_address = 167772160, netmask = 4294967040, prefixlen = 24\<rparr>
     \<lparr>version = V4, network_address = 167772288, netmask = 4294967168, prefixlen = 25\<rparr> \<and>
   \<not> subnets_conflict
     \<lparr>version = V4, network_address = 167772160, netmask = 4294967168, prefixlen = 25\<rparr>
     \<lparr>version = V4, network_address = 167772288, netmask = 4294967168, prefixlen = 25\<rparr> \<and>
   \<not> subnets_conflict
     \<lparr>version = V6, network_address = 0, netmask = 0, prefixlen = 0\<rparr>
     \<lparr>version = V4, network_address = 167772160, netmask = 4294967040, prefixlen = 24\<rparr>"
proof -
  let ?a = "\<lparr>version = V4, network_address = 167772160, netmask = 4294967040, prefixlen = 24\<rparr>"
  let ?b = "\<lparr>version = V4, network_address = 167772288, netmask = 4294967168, prefixlen = 25\<rparr>"
  let ?c = "\<lparr>version = V4, network_address = 167772160, netmask = 4294967168, prefixlen = 25\<rparr>"
  let ?d = "\<lparr>version = V6, network_address = 0, netmask = 0, prefixlen = 0\<rparr>"
  have a: "ip_network ''10.0.0.0/24'' False = Inr ?a" by code_simp
  have b: "ip_network ''10.0.0.128/25'' False = Inr ?b" by code_simp
  have c: "ip_network ''10.0.0.0/25'' False = Inr ?c" by code_simp
  have d: "ip_network ''::/0'' False = Inr ?d" by code_simp
  have ba: "broadcast_address ?a = 167772415" by code_simp
  have bb: "broadcast_address ?b = 167772415" by code_simp
  have bc: "broadcast_address ?c = 167772287" by code_simp
  have "subnets_conflict ?a ?b"
    using subnets_conflict_iff_ranges_intersect [OF a b] ba bb by simp
  moreover have "\<not> subnets_conflict ?c ?b"
    using subnets_conflict_iff_ranges_intersect [OF c b] bc bb by simp
  moreover have "\<not> subnets_conflict ?d ?a"
    using subnets_conflict_iff_ranges_intersect [OF d a] by simp
  ultimately show ?thesis using a b c d by simp
qed

subsection \<open>Searching the store for conflicts\<close>

lemma conflict_loop_encode:
  "list_all valid_record rs \<Longrightarrow>
   conflict_loop cidr (map to_add rs) acc = Inr (acc @ filter (conflicts_with cidr) rs)"
proof (induction rs arbitrary: acc)
  case Nil
  then show ?case by simp
next
  case (Cons r rs)
  then have v: "valid_record r" and vs: "list_all valid_record rs" by simp_all
  have p: "plain_record r" using v by (rule valid_record_plain)
  have s: "strip (cidr_string r @ [LF]) = cidr_string r"
    using p by (simp add: plain_record_def strip_line)
  obtain other where o: "ip_network (cidr_string r) False = Inr other"
    using v by (auto simp: valid_record_def valid_cidr_def split: sum.splits)
  have r: "\<lparr>name = name r, cidr_string = cidr_string r\<rparr> = r" by simp
  show ?case
    using Cons.IH [OF vs] o r
    by (simp add: rsplit_to_add [OF p] index_simps index_Suc_0 s conflicts_with_def)
qed

text \<open>
  Claim C4. On a store holding the records \<open>rs\<close>, \<open>check_inventory_for_conflicts\<close>
  returns the records whose network overlaps the candidate, as \<open>subnets_conflict\<close>
  decides it, in the order of the store; the result is empty exactly when no record
  overlaps.
\<close>

theorem check_inventory_for_conflicts_filters:
  assumes "list_all valid_record rs"
  shows "check_inventory_for_conflicts cidr (Some (encode rs))
           = Inr (filter (conflicts_with cidr) rs) \<and>
         (check_inventory_for_conflicts cidr (Some (encode rs)) = Inr []
            \<longleftrightarrow> \<not> list_ex (conflicts_with cidr) rs)"
proof -
  have p: "list_all plain_record rs"
    using assms valid_record_plain by (auto simp: list_all_iff)
  have c: "check_inventory_for_conflicts cidr (Some (encode rs))
           = Inr (filter (conflicts_with cidr) rs)"
    using conflict_loop_encode [OF assms, of cidr "[]"]
    by (simp add: check_inventory_for_conflicts_def readlines_encode [OF p])
  show ?thesis unfolding c by (auto simp: filter_empty_conv list_ex_iff)
qed

theorem check_inventory_for_conflicts_filters_witness:
  "check_inventory_for_conflicts
     \<lparr>version = V4, network_address = 167772160, netmask = 4294967168, prefixlen = 25\<rparr>
     (Some ''A 10.0.0.0/24\<newline>B 10.0.0.128/25\<newline>'')
   = Inr [\<lparr>name = ''A'', cidr_string = ''10.0.0.0/24''\<rparr>] \<and>
   check_inventory_for_conflicts
     \<lparr>version = V4, network_address = 167772160, netmask = 4294967040, prefixlen = 24\<rparr>
     (Some ''A 10.0.0.0/24\<newline>B 10.0.0.128/25\<newline>'')
   = Inr [\<lparr>name = ''A'', cidr_string = ''10.0.0.0/24''\<rparr>,
          \<lparr>name = ''B'', cidr_string = ''10.0.0.128/25''\<rparr>] \<and>
   check_inventory_for_conflicts
     \<lparr>version = V4, network_address = 184549376, netmask = 4278190080, prefixlen = 8\<rparr>
     (Some ''A 10.0.0.0/24\<newline>B 10.0.0.128/25\<newline>'')
   = Inr []"
proof -
  let ?rs = "[\<lparr>name = ''A'', cidr_string = ''10.0.0.0/24''\<rparr>,
              \<lparr>name = ''B'', cidr_string = ''10.0.0.128/25''\<rparr>]"
  let ?c25 = "\<lparr>version = V4, network_address = 167772160, netmask = 4294967168, prefixlen = 25\<rparr>"
  let ?c24 = "\<lparr>version = V4, network_address = 167772160, netmask = 4294967040, prefixlen = 24\<rparr>"
  let ?c8 = "\<lparr>version = V4, network_address = 184549376, netmask = 4278190080, prefixlen = 8\<rparr>"
  have e: "''A 10.0.0.0/24\<newline>B 10.0.0.128/25\<newline>'' = encode ?rs"
    by (simp add: encode_def to_add_def SP_def LF_def)
  have v: "list_all valid_record ?rs" by code_simp
  have f25: "filter (conflicts_with ?c25) ?rs = [\<lparr>name = ''A'', cidr_string = ''10.0.0.0/24''\<rparr>]"
    by code_simp
  have f24: "filter (conflicts_with ?c24) ?rs = ?rs" by code_simp
  have f8: "filter (conflicts_with ?c8) ?rs = []" by code_simp
  show ?thesis
    unfolding e
    using check_inventory_for_conflicts_filters [OF v, of ?c25]
      check_inventory_for_conflicts_filters [OF v, of ?c24]
      check_inventory_for_conflicts_filters [OF v, of ?c8]
    by (simp only: f25 f24 f8 simp_thms)
qed

subsection \<open>Reserved ranges\<close>

lemma reserved_loop_conflict:
  assumes "ip_network c False = Inr n" and "ip_network ''192.168.14.128/25'' False = Inr res"
    and "subnets_conflict n res"
  shows "reserved_loop c reserved_subnets = Inr True"
  using assms by (simp add: reserved_subnets_def)

text \<open>
  Claim C3. The reserved list holds exactly \<open>192.168.14.128/25\<close>. When the candidate's
  network overlaps it, \<open>add_subnet\<close> prints the refusal and returns: the file is not
  read or written (whatever it holds, and also when it is absent) and no answer is taken
  from the console.
\<close>

theorem add_subnet_reserved_refused:
  assumes "ip_network (cidr_string r) False = Inr n"
    and "ip_network ''192.168.14.128/25'' False = Inr res"
    and "subnets_conflict n res"
  shows "reserved_subnets = [''192.168.14.128/25''] \<and>
         add_subnet r w =
           (Inr (), print ''Subnet is reserved or conflicts with a reserved subnet and cannot be added'' w) \<and>
         inventory (snd (add_subnet r w)) = inventory w \<and>
         stdin (snd (add_subnet r w)) = stdin w"
  using reserved_loop_conflict [OF assms]
  by (simp add: add_subnet_def print_def reserved_subnets_def)

theorem add_subnet_reserved_refused_witness:
  "add_subnet \<lparr>name = ''X'', cidr_string = ''192.168.14.200/32''\<rparr>
     \<lparr>inventory = Some ''A 10.0.0.0/24\<newline>'', stdin = [''Y''], stdout = []\<rparr>
   = (Inr (),
      \<lparr>inventory = Some ''A 10.0.0.0/24\<newline>'', stdin = [''Y''],
       stdout = [''Subnet is reserved or conflicts with a reserved subnet and cannot be added'']\<rparr>)"
proof -
  let ?n = "\<lparr>version = V4, network_address = 3232239304, netmask = 4294967295, prefixlen = 32\<rparr>"
  let ?res = "\<lparr>version = V4, network_address = 3232239232, netmask = 4294967168, prefixlen = 25\<rparr>"
  have n: "ip_network (cidr_string \<lparr>name = ''X'', cidr_string = ''192.168.14.200/32''\<rparr>) False = Inr ?n"
    by code_simp
  have r: "ip_network ''192.168.14.128/25'' False = Inr ?res" by code_simp
  have c: "subnets_conflict ?n ?res" by code_simp
  show ?thesis
    using add_subnet_reserved_refused [OF n r c,
        of "\<lparr>inventory = Some ''A 10.0.0.0/24\<newline>'', stdin = [''Y''], stdout = []\<rparr>"]
    by (simp add: print_def)
qed

subsection \<open>Adding and then deleting\<close>

lemma delete_subnet_encode:
  assumes "inventory w = Some (encode rs)" and "list_all plain_record rs"
  shows "inventory (snd (delete_subnet n w)) = Some (encode (filter (\<lambda>r. name r \<noteq> n) rs))"
  using assms by (simp add: delete_subnet_def readlines_encode delete_loop_encode print_def)

lemma append_inventory_inventory:
  "inventory (snd (append_inventory r w)) =
     Some ((case inventory w of None \<Rightarrow> [] | Some f \<Rightarrow> f) @ to_add r)"
  by (simp add: append_inventory_def print_def)

lemma add_subnet_inventory:
  "inventory (snd (add_subnet r w)) = inventory w \<or>
   ((\<exists>n. ip_network (cidr_string r) False = Inr n) \<and>
    (\<exists>f. inventory w = Some f \<and> inventory (snd (add_subnet r w)) = Some (f @ to_add r)))"
proof (cases "reserved_loop (cidr_string r) reserved_subnets")
  case (Inl e)
  then show ?thesis by (simp add: add_subnet_def)
next
  case (Inr b)
  note res = this
  show ?thesis
  proof (cases b)
    case True
    then show ?thesis using res by (simp add: add_subnet_def print_def)
  next
    case False
    show ?thesis
    proof (cases "ip_network (cidr_string r) False")
      case (Inl e)
      then show ?thesis using res False by (simp add: add_subnet_def)
    next
      case (Inr n)
      show ?thesis
      proof (cases "check_inventory_for_conflicts n (inventory w)")
        case (Inl e)
        then show ?thesis using res False Inr by (simp add: add_subnet_def)
      next
        case c: (Inr cs)
        then obtain f where f: "inventory w = Some f"
          by (cases "inventory w") (simp_all add: check_inventory_for_conflicts_def)
        obtain a rest out where cl: "confirm_loop (stdin w) (stdout w) = (a, rest, out)"
          by (cases "confirm_loop (stdin w) (stdout w)") auto
        show ?thesis
          using res False Inr c f cl
          by (cases a) (auto simp: add_subnet_def append_inventory_inventory split: bool.splits)
      qed
    qed
  qed
qed

text \<open>
  On a store holding the records \<open>rs\<close>, adding a record whose address holds no
  whitespace and whose name is not in the store, and then deleting that name, leaves the
  file as it was before the addition, whether the addition appended the record or ended
  without writing (refused, declined at the prompt, or stopped by an error).
\<close>

lemma add_then_delete_plain:
  assumes "inventory w = Some (encode rs)" and "list_all plain_record rs"
    and "plain_record r" and "name r \<notin> set (map name rs)"
  shows "(inventory (snd (add_subnet r w)) = Some (encode rs) \<or>
          inventory (snd (add_subnet r w)) = Some (encode (rs @ [r]))) \<and>
         inventory (snd (delete_subnet (name r) (snd (add_subnet r w)))) = Some (encode rs)"
proof -
  let ?w = "snd (add_subnet r w)"
  have f: "filter (\<lambda>x. name x \<noteq> name r) rs = rs"
    using assms(4) by (rule filter_absent_name)
  from add_subnet_inventory [of r w]
  consider (same) "inventory ?w = Some (encode rs)"
    | (added) "inventory ?w = Some (encode (rs @ [r]))"
    using assms(1) by (auto simp: encode_append)
  then show ?thesis
  proof cases
    case same
    then show ?thesis using delete_subnet_encode [OF same assms(2), of "name r"] f by simp
  next
    case added
    have p: "list_all plain_record (rs @ [r])" using assms(2,3) by simp
    show ?thesis
      using delete_subnet_encode [OF added p, of "name r"] f added by simp
  qed
qed

text \<open>
  Every IPv4 text that \<open>ip_network\<close> accepts is free of whitespace, so the round trip
  holds for every record with an IPv4 address and a name without a line break.
\<close>

lemma add_then_delete_IPv4:
  assumes "inventory w = Some (encode rs)" and "list_all plain_record rs"
    and "clean_name (name r)" and "name r \<notin> set (map name rs)"
    and "IPv4Network (cidr_string r) False = Inr n"
  shows "inventory (snd (delete_subnet (name r) (snd (add_subnet r w)))) = Some (encode rs)"
proof -
  have "valid_cidr (cidr_string r)" using assms(5) by (rule IPv4Network_valid)
  then have "plain_record r" using assms(3) by (simp add: plain_record_def valid_cidr_def)
  then show ?thesis using add_then_delete_plain [OF assms(1,2) _ assms(4)] by simp
qed

text \<open>
  Claim C9. The round trip fails for an address that holds a space. The text
  \<open>fe80::1%a 1.2.3.4/24\<close> passes \<open>check_address_format\<close>, which searches for the
  pattern anywhere in the text, and \<open>ip_network\<close> accepts it as the IPv6 network
  \<open>fe80::/24\<close>, the scope name of the address being \<open>a 1.2.3.4\<close>. On the store
  \<open>A 10.0.0.0/24\<close> the name \<open>N\<close> is absent and the address is not stored, so
  \<open>add_subnet\<close> appends the line \<open>N fe80::1%a 1.2.3.4/24\<close>. \<open>delete_subnet\<close> splits
  a line at its last space: it reads the name of that line as \<open>N fe80::1%a\<close>, keeps
  the line, and the file is not the one before the addition.
\<close>

theorem add_then_delete_keeps_spaced_address:
  "check_address_format ''fe80::1%a 1.2.3.4/24'' \<and>
   ip_network ''fe80::1%a 1.2.3.4/24'' False
     = Inr \<lparr>version = V6, network_address = 338288524927261089654018896841347694592,
            netmask = 340282346638528859811704183484516925440, prefixlen = 24\<rparr> \<and>
   names_conflict ''N'' (Some ''A 10.0.0.0/24\<newline>'') = Inr False \<and>
   check_subnet_by_address ''fe80::1%a 1.2.3.4/24'' (Some ''A 10.0.0.0/24\<newline>'') = Inr False \<and>
   inventory (snd (add_subnet \<lparr>name = ''N'', cidr_string = ''fe80::1%a 1.2.3.4/24''\<rparr>
       \<lparr>inventory = Some ''A 10.0.0.0/24\<newline>'', stdin = [], stdout = []\<rparr>))
     = Some ''A 10.0.0.0/24\<newline>N fe80::1%a 1.2.3.4/24\<newline>'' \<and>
   inventory (snd (delete_subnet ''N''
       (snd (add_subnet \<lparr>name = ''N'', cidr_string = ''fe80::1%a 1.2.3.4/24''\<rparr>
          \<lparr>inventory = Some ''A 10.0.0.0/24\<newline>'', stdin = [], stdout = []\<rparr>))))
     = Some ''A 10.0.0.0/24\<newline>N fe80::1%a 1.2.3.4/24\<newline>'' \<and>
   inventory (snd (delete_subnet ''N''
       (snd (add_subnet \<lparr>name = ''N'', cidr_string = ''fe80::1%a 1.2.3.4/24''\<rparr>
          \<lparr>inventory = Some ''A 10.0.0.0/24\<newline>'', stdin = [], stdout = []\<rparr>))))
     \<noteq> Some ''A 10.0.0.0/24\<newline>''"
  by code_simp

subsection \<open>Octets and prefixes out of range\<close>

lemma is_digit_not_sep:
  "is_digit c \<Longrightarrow> c \<noteq> CHR ''.'' \<and> c \<noteq> CHR ''/'' \<and> c \<noteq> CHR '':''"
  by (auto simp: is_digit_def)

lemma digit_group_chars:
  assumes "digit_group lo hi g"
  shows "CHR ''.'' \<notin> set g" and "CHR ''/'' \<notin> set g" and "CHR '':'' \<notin> set g"
  using assms is_digit_not_sep by (auto simp: digit_group_def list_all_iff)

lemma str_split_none: "sep \<notin> set s \<Longrightarrow> str_split sep s = [s]"
  by (induction s) auto

lemma str_split_append:
  "sep \<notin> set a \<Longrightarrow> str_split sep (a @ sep # rest) = a # str_split sep rest"
  by (induction a) auto

lemma parse_octet_range: "parse_octet s = Inr v \<Longrightarrow> int_of_digits s \<le> 255"
  by (auto simp: parse_octet_def Let_def split: if_splits)

lemma prefix_string_range: "prefix_from_prefix_string V4 s = Inr p \<Longrightarrow> int_of_digits s \<le> 32"
  by (auto simp: prefix_from_prefix_string_def Let_def max_prefixlen_def IPV4LENGTH_def
      split: if_splits)

lemma ip_int_from_string_four:
  "ip_int_from_string s = Inr v \<Longrightarrow> length (str_split (CHR ''.'') s) = 4"
  by (auto simp: ip_int_from_string_def Let_def split: if_splits)

lemma ip_int_from_string_octets:
  assumes "ip_int_from_string s = Inr v" and "w \<in> set (str_split (CHR ''.'') s)"
  shows "int_of_digits w \<le> 255"
proof -
  obtain bs where t: "traverse parse_octet (str_split (CHR ''.'') s) = Inr bs"
    using assms(1) by (auto simp: ip_int_from_string_def Let_def split: if_splits sum.splits)
  obtain y where "parse_octet w = Inr y" using traverse_Inr [OF t assms(2)] by auto
  then show ?thesis by (rule parse_octet_range)
qed

lemma ip_int_from_string_error:
  "ip_int_from_string s = Inl e \<Longrightarrow> e = AddressValueError"
  by (auto simp: ip_int_from_string_def Let_def split: if_splits sum.splits)

lemma make_netmask_error: "make_netmask m = Inl e \<Longrightarrow> e = NetmaskValueError"
  by (auto simp: make_netmask_def prefix_from_ip_string_def prefix_from_prefix_string_def
      prefix_from_ip_int_def Let_def split: mask_arg.splits sum.splits if_splits)

lemma IPv4Network_error:
  "IPv4Network s False = Inl e \<Longrightarrow> e = AddressValueError \<or> e = NetmaskValueError"
  using ip_int_from_string_error make_netmask_error
  by (auto simp: IPv4Network_def split_addr_prefix_def split_optional_netmask_def Let_def
      IPv4Address_def split: sum.splits prod.splits if_splits)

lemma str_split_subset: "x \<in> set (str_split sep s) \<Longrightarrow> set x \<subseteq> set s"
proof (induction s arbitrary: x)
  case Nil
  then show ?case by simp
next
  case (Cons c s)
  obtain y ys where y: "str_split sep s = y # ys"
    using str_split_nonempty [of sep s] by (cases "str_split sep s") auto
  show ?case
  proof (cases "c = sep")
    case True
    then show ?thesis using Cons by auto
  next
    case False
    then have "x = c # y \<or> x \<in> set ys" using Cons.prems y by simp
    then show ?thesis using Cons.IH [of y] Cons.IH [of x] y by auto
  qed
qed

lemma split_addr_prefix_subset:
  assumes "split_addr_prefix v s = Inr (a, m)"
  shows "set a \<subseteq> set s"
proof -
  have "a \<in> set (str_split (CHR ''/'') s)"
    using split_addr_prefix_cases [OF assms] by auto
  then show ?thesis by (rule str_split_subset)
qed

lemma split_addr_prefix_error:
  "split_addr_prefix v s = Inl e \<Longrightarrow> e = AddressValueError"
  by (auto simp: split_addr_prefix_def split_optional_netmask_def Let_def split: if_splits)

lemma ip_int_from_string6_no_colon:
  "CHR '':'' \<notin> set s \<Longrightarrow> ip_int_from_string6 s = Inl AddressValueError"
  by (simp add: ip_int_from_string6_def str_split_none Let_def)

lemma split_scope_id_subset: "split_scope_id s = Inr (a, sc) \<Longrightarrow> set a \<subseteq> set s"
  by (auto simp: split_scope_id_def Let_def split: if_splits dest: set_takeWhileD)

lemma split_scope_id_error: "split_scope_id s = Inl e \<Longrightarrow> e = AddressValueError"
  by (auto simp: split_scope_id_def Let_def split: if_splits)

lemma IPv6Address_no_colon:
  assumes "CHR '':'' \<notin> set s"
  shows "IPv6Address s = Inl AddressValueError"
proof (cases "split_scope_id s")
  case (Inl e)
  then show ?thesis using split_scope_id_error [OF Inl] by (simp add: IPv6Address_def)
next
  case (Inr p)
  obtain a sc where p: "p = (a, sc)" by (cases p)
  have "CHR '':'' \<notin> set a" using split_scope_id_subset Inr p assms by blast
  then show ?thesis
    using Inr p by (simp add: IPv6Address_def ip_int_from_string6_no_colon)
qed

text \<open>Without a colon, text is no IPv6 network.\<close>

lemma IPv6Network_no_colon:
  assumes "CHR '':'' \<notin> set s"
  shows "IPv6Network s strict = Inl AddressValueError"
proof (cases "split_addr_prefix V6 s")
  case (Inl e)
  then show ?thesis using split_addr_prefix_error [OF Inl] by (simp add: IPv6Network_def)
next
  case (Inr p)
  obtain a m where p: "p = (a, m)" by (cases p)
  have "CHR '':'' \<notin> set a" using split_addr_prefix_subset Inr p assms by blast
  then show ?thesis
    using Inr p by (simp add: IPv6Network_def IPv6Address_no_colon)
qed

lemma ip_network_rejects:
  assumes "\<And>n. IPv4Network s False \<noteq> Inr n" and "CHR '':'' \<notin> set s"
  shows "ip_network s False = Inl ValueError"
proof -
  obtain e where e: "IPv4Network s False = Inl e"
    using assms(1) by (cases "IPv4Network s False") auto
  show ?thesis
    using IPv4Network_error [OF e] e IPv6Network_no_colon [OF assms(2)]
    by (auto simp: ip_network_def)
qed

lemma dotted_cidr_split:
  assumes "digit_group 1 3 o1" "digit_group 1 3 o2" "digit_group 1 3 o3" "digit_group 1 3 o4"
    and "digit_group 1 2 p"
  shows "str_split (CHR ''/'') (dotted_cidr o1 o2 o3 o4 p) = [o1 @ ''.'' @ o2 @ ''.'' @ o3 @ ''.'' @ o4, p]"
    and "str_split (CHR ''.'') (o1 @ ''.'' @ o2 @ ''.'' @ o3 @ ''.'' @ o4) = [o1, o2, o3, o4]"
    and "str_split (CHR ''.'') p = [p]"
    and "CHR '':'' \<notin> set (dotted_cidr o1 o2 o3 o4 p)"
proof -
  note c = assms [THEN digit_group_chars(1)] assms [THEN digit_group_chars(2)]
    assms [THEN digit_group_chars(3)]
  have "CHR ''/'' \<notin> set (o1 @ ''.'' @ o2 @ ''.'' @ o3 @ ''.'' @ o4)" using c by simp
  then have "str_split (CHR ''/'') ((o1 @ ''.'' @ o2 @ ''.'' @ o3 @ ''.'' @ o4) @ CHR ''/'' # p)
      = (o1 @ ''.'' @ o2 @ ''.'' @ o3 @ ''.'' @ o4) # str_split (CHR ''/'') p"
    by (rule str_split_append)
  then show "str_split (CHR ''/'') (dotted_cidr o1 o2 o3 o4 p) = [o1 @ ''.'' @ o2 @ ''.'' @ o3 @ ''.'' @ o4, p]"
    using c by (simp add: dotted_cidr_def str_split_none)
  show "str_split (CHR ''.'') (o1 @ ''.'' @ o2 @ ''.'' @ o3 @ ''.'' @ o4) = [o1, o2, o3, o4]"
    using c by (simp add: str_split_append str_split_none)
  show "str_split (CHR ''.'') p = [p]" using c by (simp add: str_split_none)
  show "CHR '':'' \<notin> set (dotted_cidr o1 o2 o3 o4 p)" using c by (simp add: dotted_cidr_def)
qed

lemma dotted_cidr_accepted_in_range:
  assumes g: "digit_group 1 3 o1" "digit_group 1 3 o2" "digit_group 1 3 o3" "digit_group 1 3 o4"
    "digit_group 1 2 p"
    and n: "IPv4Network (dotted_cidr o1 o2 o3 o4 p) strict = Inr n"
  shows "int_of_digits o1 \<le> 255 \<and> int_of_digits o2 \<le> 255 \<and> int_of_digits o3 \<le> 255 \<and>
         int_of_digits o4 \<le> 255 \<and> int_of_digits p \<le> 32"
proof -
  let ?a = "o1 @ ''.'' @ o2 @ ''.'' @ o3 @ ''.'' @ o4"
  note sp = dotted_cidr_split [OF g]
  obtain a m packed where s: "split_addr_prefix V4 (dotted_cidr o1 o2 o3 o4 p) = Inr (a, m)"
    and a: "IPv4Address a = Inr packed"
    and m: "make_netmask m = Inr (netmask n, prefixlen n)"
    using IPv4Network_parts [OF n] by blast
  have am: "a = ?a" "m = MaskText p"
    using split_addr_prefix_cases [OF s] sp(1) by auto
  have ip: "ip_int_from_string ?a = Inr packed"
    using a am(1) by (auto simp: IPv4Address_def split: if_splits)
  have oct: "int_of_digits o1 \<le> 255 \<and> int_of_digits o2 \<le> 255 \<and> int_of_digits o3 \<le> 255 \<and>
         int_of_digits o4 \<le> 255"
    using ip_int_from_string_octets [OF ip] sp(2) by simp
  have "prefix_from_prefix_string V4 p = Inr (prefixlen n) \<or> prefix_from_ip_string p = Inr (prefixlen n)"
    using m am(2) by (auto simp: make_netmask_def split: sum.splits)
  moreover have "prefix_from_ip_string p \<noteq> Inr (prefixlen n)"
  proof
    assume "prefix_from_ip_string p = Inr (prefixlen n)"
    then obtain v where "ip_int_from_string p = Inr v"
      by (auto simp: prefix_from_ip_string_def split: sum.splits)
    then show False using ip_int_from_string_four sp(3) by fastforce
  qed
  ultimately have "int_of_digits p \<le> 32" using prefix_string_range by blast
  then show ?thesis using oct by simp
qed

lemma match_here_digits:
  assumes "digit_group lo hi g" and "match_here p rest"
  shows "match_here (Digits lo hi # p) (g @ rest)"
proof -
  have "length g \<in> set [lo..<Suc hi]" using assms(1) by (auto simp: digit_group_def)
  moreover have "length g \<le> length (g @ rest) \<and> list_all is_digit (take (length g) (g @ rest)) \<and>
      match_here p (drop (length g) (g @ rest))"
    using assms by (simp add: digit_group_def)
  ultimately show ?thesis unfolding match_here.simps list_ex_iff by blast
qed

lemma dotted_cidr_format:
  assumes "digit_group 1 3 o1" "digit_group 1 3 o2" "digit_group 1 3 o3" "digit_group 1 3 o4"
    and "digit_group 1 2 p"
  shows "check_address_format (dotted_cidr o1 o2 o3 o4 p)"
proof -
  have 5: "match_here [Digits 1 2] (p @ [])"
    using assms(5) by (intro match_here_digits) simp_all
  have 4: "match_here [Digits 1 3, Lit (CHR ''/''), Digits 1 2] (o4 @ ''/'' @ p)"
    using assms(4) 5 by (intro match_here_digits) simp_all
  have 3: "match_here [Digits 1 3, Lit (CHR ''.''), Digits 1 3, Lit (CHR ''/''), Digits 1 2]
      (o3 @ ''.'' @ o4 @ ''/'' @ p)"
    using assms(3) 4 by (intro match_here_digits) simp_all
  have 2: "match_here [Digits 1 3, Lit (CHR ''.''), Digits 1 3, Lit (CHR ''.''), Digits 1 3,
      Lit (CHR ''/''), Digits 1 2] (o2 @ ''.'' @ o3 @ ''.'' @ o4 @ ''/'' @ p)"
    using assms(2) 3 by (intro match_here_digits) simp_all
  have 1: "match_here cidr_pattern (dotted_cidr o1 o2 o3 o4 p)"
    unfolding cidr_pattern_def dotted_cidr_def
    using assms(1) 2 by (intro match_here_digits) simp_all
  have "0 \<in> set [0..<Suc (length (dotted_cidr o1 o2 o3 o4 p))]" by simp
  then have "re_search cidr_pattern (dotted_cidr o1 o2 o3 o4 p)"
    unfolding re_search_def list_ex_iff using 1 by (intro bexI [of _ 0]) simp_all
  then show ?thesis by (simp add: check_address_format_def)
qed

lemma dotted_cidr_shape:
  assumes "digit_group 1 3 o1" "digit_group 1 3 o2" "digit_group 1 3 o3" "digit_group 1 3 o4"
    and "digit_group 1 2 p"
  shows "cidr_shape (dotted_cidr o1 o2 o3 o4 p)"
  using assms dotted_cidr_split(1,2) [OF assms] by (simp add: cidr_shape_def)

text \<open>
  Text of the exact shape \<open>o1.o2.o3.o4/p\<close> (groups of one to three digits, a prefix of
  one or two digits) passes \<open>check_address_format\<close>; when a group is above 255 or the
  prefix above 32, neither parser of \<open>ip_network\<close> accepts it and \<open>ip_network\<close> raises
  \<open>ValueError\<close>. \<open>add_subnet\<close> does not catch it: it ends with that exception before
  it reads or writes the file or shows anything.
\<close>

lemma out_of_range_rejected:
  assumes "digit_group 1 3 o1" "digit_group 1 3 o2" "digit_group 1 3 o3" "digit_group 1 3 o4"
    and "digit_group 1 2 p"
    and "255 < int_of_digits o1 \<or> 255 < int_of_digits o2 \<or> 255 < int_of_digits o3 \<or>
         255 < int_of_digits o4 \<or> 32 < int_of_digits p"
  shows "check_address_format (dotted_cidr o1 o2 o3 o4 p) \<and>
         ip_network (dotted_cidr o1 o2 o3 o4 p) False = Inl ValueError \<and>
         add_subnet \<lparr>name = n, cidr_string = dotted_cidr o1 o2 o3 o4 p\<rparr> w = (Inl ValueError, w)"
proof -
  note g = assms(1-5)
  have "\<And>n. IPv4Network (dotted_cidr o1 o2 o3 o4 p) False \<noteq> Inr n"
    using dotted_cidr_accepted_in_range [OF g] assms(6) by fastforce
  then have r: "ip_network (dotted_cidr o1 o2 o3 o4 p) False = Inl ValueError"
    using dotted_cidr_split(4) [OF g] by (rule ip_network_rejects)
  have "add_subnet \<lparr>name = n, cidr_string = dotted_cidr o1 o2 o3 o4 p\<rparr> w = (Inl ValueError, w)"
    using r by (simp add: add_subnet_def reserved_subnets_def)
  then show ?thesis using r dotted_cidr_format [OF g] by simp
qed

text \<open>
  Claim C8. Two departures. First, the rejection is an exception that \<open>add_subnet\<close>
  lets through: for \<open>999.0.0.0/24\<close> and for \<open>10.0.0.0/33\<close>, which pass
  \<open>check_address_format\<close>, \<open>ip_network\<close> raises \<open>ValueError\<close> and \<open>add_subnet\<close>
  ends with it, the file untouched, although its documentation lists no exception.
  Second, not every such text is rejected: \<open>::ffff:10.0.0.0/96\<close> passes
  \<open>check_address_format\<close>, which searches for the pattern anywhere in the text, its
  prefix 96 is above 32, and \<open>ip_network\<close> accepts it as an IPv6 network, which
  \<open>add_subnet\<close> appends to the file.
\<close>

theorem out_of_range_raised_or_stored:
  "check_address_format ''999.0.0.0/24'' \<and>
   ip_network ''999.0.0.0/24'' False = Inl ValueError \<and>
   add_subnet \<lparr>name = ''A'', cidr_string = ''999.0.0.0/24''\<rparr>
     \<lparr>inventory = Some ''B 10.0.0.0/8\<newline>'', stdin = [], stdout = []\<rparr>
   = (Inl ValueError, \<lparr>inventory = Some ''B 10.0.0.0/8\<newline>'', stdin = [], stdout = []\<rparr>) \<and>
   check_address_format ''10.0.0.0/33'' \<and>
   add_subnet \<lparr>name = ''A'', cidr_string = ''10.0.0.0/33''\<rparr>
     \<lparr>inventory = Some ''B 10.0.0.0/8\<newline>'', stdin = [], stdout = []\<rparr>
   = (Inl ValueError, \<lparr>inventory = Some ''B 10.0.0.0/8\<newline>'', stdin = [], stdout = []\<rparr>) \<and>
   check_address_format ''::ffff:10.0.0.0/96'' \<and>
   ip_network ''::ffff:10.0.0.0/96'' False
     = Inr \<lparr>version = V6, network_address = 281470681743360,
            netmask = 340282366920938463463374607427473244160, prefixlen = 96\<rparr> \<and>
   inventory (snd (add_subnet \<lparr>name = ''A'', cidr_string = ''::ffff:10.0.0.0/96''\<rparr>
       \<lparr>inventory = Some ''B 10.0.0.0/8\<newline>'', stdin = [], stdout = []\<rparr>))
     = Some ''B 10.0.0.0/8\<newline>A ::ffff:10.0.0.0/96\<newline>''"
  by code_simp

end
